theory Spec2Isabelle
  imports Complex_Main "HOL-Library.Multiset"
begin

section \<open>Binary64 numbers\<close>

text \<open>
  A Python \<open>float\<close> and a numpy \<open>float64\<close> are IEEE binary64 numbers, and every operation
  on them rounds its exact result to the nearest binary64 number, ties to the even
  mantissa. A number is finite, with its value, or one of the two infinities, or not a
  number. The two zeros are one value here: they compare equal, and the source does not
  divide by a zero.
\<close>

datatype f64 = Fin real | PInf | NInf | NaN

text \<open>The power of two with an integer exponent.\<close>

definition pow2 :: "int \<Rightarrow> real" where
  "pow2 e = (if 0 \<le> e then 2 ^ nat e else 1 / 2 ^ nat (- e))"

text \<open>
  The binary exponent of a positive number: \<open>ilog2 y\<close> is the \<open>k\<close> with
  \<open>2^k \<le> y < 2^(k+1)\<close>, counted by halving a number from 1 on and by doubling a number
  below 1.
\<close>

function log2_up :: "real \<Rightarrow> nat" where
  "log2_up y = (if y < 2 then 0 else Suc (log2_up (y / 2)))"
  by pat_completeness auto
termination
proof (relation "measure (\<lambda>y. nat \<lfloor>y\<rfloor>)")
  show "wf (measure (\<lambda>y::real. nat \<lfloor>y\<rfloor>))" by simp
next
  fix y :: real assume "\<not> y < 2"
  then have y: "2 \<le> y" by simp
  have "\<lfloor>y / 2\<rfloor> < \<lfloor>y\<rfloor>"
  proof -
    have "y / 2 < of_int \<lfloor>y\<rfloor>"
    proof -
      have "y / 2 \<le> y - 1" using y by simp
      also have "y - 1 < of_int \<lfloor>y\<rfloor>" by linarith
      finally show ?thesis .
    qed
    then show ?thesis by (simp add: floor_less_iff)
  qed
  moreover have "0 < \<lfloor>y\<rfloor>" using y by simp
  ultimately show "(y / 2, y) \<in> measure (\<lambda>y. nat \<lfloor>y\<rfloor>)" by simp
qed

function log2_down :: "real \<Rightarrow> nat" where
  "log2_down y = (if 1 \<le> y \<or> y \<le> 0 then 0 else Suc (log2_down (2 * y)))"
  by pat_completeness auto
termination
proof (relation "measure (\<lambda>y. nat \<lceil>1 / y\<rceil>)")
  show "wf (measure (\<lambda>y::real. nat \<lceil>1 / y\<rceil>))" by simp
next
  fix y :: real assume "\<not> (1 \<le> y \<or> y \<le> 0)"
  then have y: "0 < y" "y < 1" by simp_all
  define z where "z = 1 / y"
  have z: "1 < z" using y by (simp add: z_def)
  have c: "z \<le> of_int \<lceil>z\<rceil>" by linarith
  have "2 \<le> \<lceil>z\<rceil>" using z by linarith
  then have a: "(2::real) \<le> of_int \<lceil>z\<rceil>" by linarith
  from a c have "z / 2 \<le> of_int \<lceil>z\<rceil> - 1" by linarith
  then have "z / 2 \<le> of_int (\<lceil>z\<rceil> - 1)" by simp
  then have le: "\<lceil>z / 2\<rceil> \<le> \<lceil>z\<rceil> - 1" by (simp only: ceiling_le_iff)
  have pos: "0 < \<lceil>z\<rceil>" using z by linarith
  have e: "1 / (2 * y) = z / 2" by (simp add: z_def)
  have "nat \<lceil>1 / (2 * y)\<rceil> < nat \<lceil>z\<rceil>"
    unfolding e using le pos by linarith
  then show "(2 * y, y) \<in> measure (\<lambda>y. nat \<lceil>1 / y\<rceil>)"
    by (simp add: z_def)
qed

definition ilog2 :: "real \<Rightarrow> int" where
  "ilog2 y = (if 1 \<le> y then int (log2_up y) else - int (log2_down y))"

text \<open>Rounding to an integer, ties to the even one (\<open>rint\<close>).\<close>

definition rhe :: "real \<Rightarrow> int" where
  "rhe x =
     (let f = \<lfloor>x\<rfloor>; d = x - of_int f
      in if d < 1 / 2 then f
         else if 1 / 2 < d then f + 1
         else if even f then f else f + 1)"

text \<open>
  Rounding a real to binary64: 53 bits of mantissa at the exponent of the number, the
  exponent of the last bit no lower than -1074 (subnormal numbers), and an infinity once
  the rounded magnitude reaches \<open>2^1024\<close>.
\<close>

definition rnd :: "real \<Rightarrow> f64" where
  "rnd y =
     (let e = max (ilog2 \<bar>y\<bar> - 52) (- 1074);
          r = of_int (rhe (y / pow2 e)) * pow2 e
      in if 2 ^ 1024 \<le> \<bar>r\<bar> then (if 0 < y then PInf else NInf) else Fin r)"

text \<open>The largest finite binary64 number, and the numbers that are finite.\<close>

definition max_f64 :: real where
  "max_f64 = (2 ^ 53 - 1) * 2 ^ 971"

fun finito :: "f64 \<Rightarrow> bool" where
  "finito (Fin a) = (\<bar>a\<bar> \<le> max_f64)"
| "finito x = False"

fun fneg :: "f64 \<Rightarrow> f64" where
  "fneg (Fin a) = Fin (- a)"
| "fneg PInf = NInf"
| "fneg NInf = PInf"
| "fneg NaN = NaN"

fun fadd :: "f64 \<Rightarrow> f64 \<Rightarrow> f64" where
  "fadd NaN y = NaN"
| "fadd x NaN = NaN"
| "fadd PInf NInf = NaN"
| "fadd NInf PInf = NaN"
| "fadd PInf y = PInf"
| "fadd x PInf = PInf"
| "fadd NInf y = NInf"
| "fadd x NInf = NInf"
| "fadd (Fin a) (Fin b) = rnd (a + b)"

definition fsub :: "f64 \<Rightarrow> f64 \<Rightarrow> f64" where
  "fsub x y = fadd x (fneg y)"

text \<open>The sign of a number, and the infinity of a sign (not a number for the sign 0).\<close>

fun fsgn :: "f64 \<Rightarrow> int" where
  "fsgn (Fin a) = (if 0 < a then 1 else if a < 0 then - 1 else 0)"
| "fsgn PInf = 1"
| "fsgn NInf = - 1"
| "fsgn NaN = 0"

definition finf :: "int \<Rightarrow> f64" where
  "finf s = (if s = 0 then NaN else if 0 < s then PInf else NInf)"

fun fmul :: "f64 \<Rightarrow> f64 \<Rightarrow> f64" where
  "fmul NaN y = NaN"
| "fmul x NaN = NaN"
| "fmul (Fin a) (Fin b) = rnd (a * b)"
| "fmul x y = finf (fsgn x * fsgn y)"

text \<open>
  Division. The source divides by \<open>cantidad\<close> only under the guard \<open>if cantidad\<close>, and
  \<open>round\<close> divides by a power of ten, so no divisor is zero; for a zero divisor the
  model returns not a number.
\<close>

fun fdiv :: "f64 \<Rightarrow> f64 \<Rightarrow> f64" where
  "fdiv NaN y = NaN"
| "fdiv x NaN = NaN"
| "fdiv (Fin a) (Fin b) = (if b = 0 then NaN else rnd (a / b))"
| "fdiv (Fin a) y = Fin 0"
| "fdiv x (Fin b) = (if b = 0 then NaN else finf (fsgn x * fsgn (Fin b)))"
| "fdiv x y = NaN"

text \<open>The comparisons \<open><=\<close> and \<open><\<close>: false as soon as a side is not a number.\<close>

fun fle :: "f64 \<Rightarrow> f64 \<Rightarrow> bool" where
  "fle NaN y = False"
| "fle x NaN = False"
| "fle NInf y = True"
| "fle x PInf = True"
| "fle (Fin a) (Fin b) = (a \<le> b)"
| "fle x y = False"

fun flt :: "f64 \<Rightarrow> f64 \<Rightarrow> bool" where
  "flt NaN y = False"
| "flt x NaN = False"
| "flt PInf y = False"
| "flt x NInf = False"
| "flt (Fin a) (Fin b) = (a < b)"
| "flt x y = True"

text \<open>Python's \<open>min(a, b)\<close>: \<open>b\<close> when \<open>b < a\<close>, else \<open>a\<close>.\<close>

definition py_min :: "f64 \<Rightarrow> f64 \<Rightarrow> f64" where
  "py_min a b = (if flt b a then b else a)"

text \<open>
  \<open>round(x, ndigits)\<close> on a numpy \<open>float64\<close>: numpy multiplies by the power of ten, rounds
  to an integer with \<open>rint\<close> and divides by the power of ten, each step in binary64. The
  source rounds a Python \<open>float\<close> only when it is 0.0, which both roundings keep.
\<close>

fun frint :: "f64 \<Rightarrow> f64" where
  "frint (Fin a) = Fin (of_int (rhe a))"
| "frint x = x"

definition np_round :: "f64 \<Rightarrow> nat \<Rightarrow> f64" where
  "np_round x ndigits = fdiv (frint (fmul x (Fin (10 ^ ndigits)))) (Fin (10 ^ ndigits))"

text \<open>
  A decimal literal of the source denotes the binary64 number nearest to it: \<open>1e-9\<close> is
  \<open>rnd (1 / 10 ^ 9)\<close> and \<open>0.19\<close> is \<open>rnd (19 / 100)\<close>.
\<close>

definition eps9 :: f64 where
  "eps9 = rnd (1 / 1000000000)"

text \<open>The equations that evaluate a binary64 operation on given numbers.\<close>

declare log2_up.simps [simp del] log2_down.simps [simp del]

named_theorems f64_eval

lemmas [f64_eval] = rnd_def ilog2_def rhe_def pow2_def log2_up.simps log2_down.simps
  fsub_def py_min_def np_round_def finf_def max_f64_def Let_def

section \<open>Other Python values\<close>

text \<open>
  Strings. \<open>str.lower()\<close> is a function of Python over the whole of Unicode; it is the
  parameter \<open>lower\<close> of the functions below. What is used of it is \<open>lower_ok\<close>: the
  lower-cased string is empty exactly when the string is.
\<close>

definition lower_ok :: "(string \<Rightarrow> string) \<Rightarrow> bool" where
  "lower_ok lower \<longleftrightarrow> (\<forall>s. (lower s = []) = (s = []))"

text \<open>
  On strings of ASCII characters \<open>str.lower()\<close> moves each of the letters \<open>A\<close>..\<open>Z\<close> to
  its lower-case letter and keeps every other character.
\<close>

definition lower_char :: "char \<Rightarrow> char" where
  "lower_char c =
     (case map_of (zip ''ABCDEFGHIJKLMNOPQRSTUVWXYZ'' ''abcdefghijklmnopqrstuvwxyz'') c of
        None \<Rightarrow> c
      | Some d \<Rightarrow> d)"

definition ascii_lower :: "string \<Rightarrow> string" where
  "ascii_lower s = map lower_char s"

text \<open>
  Dates. The column \<open>fecha\<close> holds a date or a value convertible to one; a date is its
  day ordinal, a datetime a day ordinal and the seconds elapsed in that day.
  \<open>pd.to_datetime(col).dt.date\<close> keeps the day of each entry.
\<close>

datatype fecha_val = PyDate int | PyDatetime int nat

fun ordinal :: "fecha_val \<Rightarrow> int" where
  "ordinal (PyDate d) = d"
| "ordinal (PyDatetime d s) = d"

definition to_date :: "fecha_val \<Rightarrow> fecha_val" where
  "to_date v = PyDate (ordinal v)"

datatype py_error = KeyError

section \<open>Data model\<close>

text \<open>
  A row of the input frame \<open>df_operaciones\<close>, and the frame: its rows, and whether it
  has the optional column \<open>fee_eur\<close>. The cell \<open>fee_eur\<close> of a row counts only in a
  frame with that column. The numeric cells are the numbers that \<open>float\<close> gives of
  them, and \<open>cripto\<close> is the string that \<open>str\<close> gives of its cell.
\<close>

record operacion =
  fecha :: fecha_val
  tipo :: string
  cripto :: string
  cantidad :: f64
  valor_eur :: f64
  fee_eur :: f64

record frame =
  con_fee :: bool
  filas :: "operacion list"

text \<open>A lot of a queue: the dict appended to \<open>colas[cripto]\<close> on a purchase.\<close>

record lote =
  cantidad_disponible :: f64
  coste_unit :: f64
  fecha_compra :: fecha_val

text \<open>
  One entry of \<open>lotes_info\<close>. The source renders it as one string: \<open>tomados\<close> with
  eight decimals, \<open>fecha_compra\<close> and \<open>coste_unit\<close> with two decimals, separated by at
  signs. The model keeps the three values that are rendered.
\<close>

type_synonym traza = "f64 \<times> fecha_val \<times> f64"

text \<open>
  \<open>"; ".join(lotes_info) or "N/A"\<close>: every entry contains an at sign, so the joined
  string is empty, and replaced by \<open>"N/A"\<close>, exactly when the list is empty.
\<close>

datatype lotes_origen = NA | Joined "traza list"

definition join_or_na :: "traza list \<Rightarrow> lotes_origen" where
  "join_or_na lotes_info = (if lotes_info = [] then NA else Joined lotes_info)"

text \<open>
  The note of a sale: the empty string, or the message built from \<open>{restante:.8f}\<close>
  and \<open>{cripto}\<close>, kept as the two values rendered.
\<close>

datatype nota_val = NotaVacia | SinHistorico f64 string

text \<open>A row of the result: the dict appended to \<open>ventas\<close>.\<close>

record venta =
  fecha_venta :: fecha_val
  cripto_venta :: string
  tipo_operacion :: string
  cantidad_vendida :: f64
  valor_transmision_bruto_eur :: f64
  comision_venta_eur :: f64
  valor_transmision_neto_eur :: f64
  coste_adquisicion_total_eur :: f64
  ganancia_perdida_eur :: f64
  nota :: nota_val
  lotes_origen_info :: lotes_origen

text \<open>The two locals that the loop of \<open>calcular_fifo\<close> mutates.\<close>

record estado =
  colas :: "string \<rightharpoonup> lote list"
  ventas :: "venta list"

definition estado_inicial :: estado where
  "estado_inicial = \<lparr>colas = Map.empty, ventas = []\<rparr>"

section \<open>\<open>calcular_fifo\<close>\<close>

text \<open>
  The inner \<open>while restante > 0 and colas[cripto]\<close> loop, on the queue of one asset.
  The head lot is mutated in place and popped once at most \<open>1e-9\<close> is left of it. The
  loop ends: an iteration that keeps the head lot has taken all of \<open>restante\<close>, or has
  met an infinite lot, after which the next iteration leaves no \<open>restante\<close> above 0.
\<close>

function consumir_fifo ::
  "f64 \<Rightarrow> lote list \<Rightarrow> f64 \<Rightarrow> traza list \<Rightarrow> f64 \<times> lote list \<times> f64 \<times> traza list" where
  "consumir_fifo restante [] coste_adq lotes_info = (restante, [], coste_adq, lotes_info)"
| "consumir_fifo restante (l # resto) coste_adq lotes_info =
     (if flt (Fin 0) restante then
        (let tomados = py_min restante (cantidad_disponible l);
             coste_adq' = fadd coste_adq (fmul tomados (coste_unit l));
             lotes_info' = lotes_info @ [(tomados, fecha_compra l, coste_unit l)];
             l' = l\<lparr>cantidad_disponible := fsub (cantidad_disponible l) tomados\<rparr>;
             restante' = fsub restante tomados
         in if fle (cantidad_disponible l') eps9
            then consumir_fifo restante' resto coste_adq' lotes_info'
            else consumir_fifo restante' (l' # resto) coste_adq' lotes_info')
      else (restante, l # resto, coste_adq, lotes_info))"
  by pat_completeness auto
termination
proof (relation "measure (\<lambda>(restante, cola, _, _). 3 * length cola +
    (if flt (Fin 0) restante
     then (case cola of [] \<Rightarrow> 0 | l # _ \<Rightarrow> if cantidad_disponible l = NaN then 1 else 2)
     else 0))", goal_cases)
  case 1
  show ?case by simp
next
  case (2 restante l resto coste_adq lotes_info tomados coste_adq' lotes_info' l' restante')
  then show ?case by (simp split: list.splits)
next
  case (3 restante l resto coste_adq lotes_info tomados coste_adq' lotes_info' l' restante')
  have eps: "fle (Fin 0) eps9" by (simp add: eps9_def f64_eval)
  have r0: "rnd 0 = Fin 0" by (simp add: f64_eval)
  have self: "\<not> flt (Fin 0) (fsub x x)" for x
    by (cases x) (simp_all add: fsub_def r0)
  let ?q = "cantidad_disponible l"
  from 3 have pos: "flt (Fin 0) restante"
    and t: "tomados = py_min restante ?q"
    and r': "restante' = fsub restante tomados"
    and keep: "\<not> fle (fsub ?q tomados) eps9"
    and l': "cantidad_disponible l' = fsub ?q tomados"
    by simp_all
  show ?case
  proof (cases "flt ?q restante")
    case False
    with t have "tomados = restante" by (simp add: py_min_def)
    with r' self have "\<not> flt (Fin 0) restante'" by simp
    then show ?thesis using pos by simp
  next
    case True
    with t have tq: "tomados = ?q" by (simp add: py_min_def)
    show ?thesis
    proof (cases ?q)
      case (Fin a)
      with keep tq eps show ?thesis by (simp add: fsub_def r0)
    next
      case PInf
      with True show ?thesis by (cases restante) simp_all
    next
      case NInf
      with tq l' have "cantidad_disponible l' = NaN" by (simp add: fsub_def)
      with NInf pos show ?thesis by simp
    next
      case NaN
      with True show ?thesis by (cases restante) simp_all
    qed
  qed
qed

text \<open>\<open>float(f.get('fee_eur', 0.0))\<close>: the cell when the row has the key, else 0.0.\<close>

definition fee_de :: "bool \<Rightarrow> operacion \<Rightarrow> f64" where
  "fee_de cf f = (if cf then fee_eur f else Fin 0)"

text \<open>\<open>str(f['cripto']).lower()\<close>.\<close>

definition cripto_de :: "(string \<Rightarrow> string) \<Rightarrow> operacion \<Rightarrow> string" where
  "cripto_de lower f = lower (cripto f)"

text \<open>\<open>if cripto not in colas: colas[cripto] = deque()\<close>.\<close>

definition asegurar_cola :: "(string \<rightharpoonup> lote list) \<Rightarrow> string \<Rightarrow> (string \<rightharpoonup> lote list)" where
  "asegurar_cola cs c = (if cs c = None then cs(c \<mapsto> []) else cs)"

text \<open>
  The body of \<open>for _, f in df.iterrows()\<close>, for a frame with (\<open>cf\<close>) or without the
  column \<open>fee_eur\<close>. The subscription \<open>colas[cripto]\<close> raises \<open>KeyError\<close> on a missing
  key. A number is true in a condition when it is not zero.
\<close>

definition fifo_fila ::
  "(string \<Rightarrow> string) \<Rightarrow> bool \<Rightarrow> estado \<Rightarrow> operacion \<Rightarrow> py_error + estado" where
  "fifo_fila lower cf st f =
     (if fle (cantidad f) (Fin 0) \<or> cripto_de lower f = [] then Inr st
      else
        (let colas1 = asegurar_cola (colas st) (cripto_de lower f)
         in if tipo f = ''Compra'' then
              (let coste_total = fadd (valor_eur f) (fee_de cf f);
                   coste_unit' =
                     (if cantidad f \<noteq> Fin 0 then fdiv coste_total (cantidad f) else Fin 0)
               in case colas1 (cripto_de lower f) of
                    None \<Rightarrow> Inl KeyError
                  | Some cola \<Rightarrow>
                      Inr (st\<lparr>colas := colas1(cripto_de lower f \<mapsto>
                             cola @ [\<lparr>cantidad_disponible = cantidad f,
                                      coste_unit = coste_unit',
                                      fecha_compra = fecha f\<rparr>])\<rparr>))
            else if tipo f = ''Venta'' \<or> tipo f = ''Donacion'' then
              (let valor_neto = fsub (valor_eur f) (fee_de cf f)
               in case colas1 (cripto_de lower f) of
                    None \<Rightarrow> Inl KeyError
                  | Some cola \<Rightarrow>
                      (case consumir_fifo (cantidad f) cola (Fin 0) [] of
                         (restante, cola', coste_adq, lotes_info) \<Rightarrow>
                           (let nota' = (if flt eps9 restante
                                         then SinHistorico restante (cripto_de lower f)
                                         else NotaVacia);
                                ganancia = fsub valor_neto coste_adq
                            in Inr \<lparr>colas = colas1(cripto_de lower f \<mapsto> cola'),
                                    ventas = ventas st @
                                      [\<lparr>fecha_venta = fecha f,
                                        cripto_venta = cripto_de lower f,
                                        tipo_operacion = tipo f,
                                        cantidad_vendida = cantidad f,
                                        valor_transmision_bruto_eur = valor_eur f,
                                        comision_venta_eur = fee_de cf f,
                                        valor_transmision_neto_eur = valor_neto,
                                        coste_adquisicion_total_eur = coste_adq,
                                        ganancia_perdida_eur = ganancia,
                                        nota = nota',
                                        lotes_origen_info = join_or_na lotes_info\<rparr>]\<rparr>)))
            else Inr (st\<lparr>colas := colas1\<rparr>)))"

text \<open>The \<open>for\<close> loop over the rows; an exception ends it.\<close>

fun iterrows_loop ::
  "(string \<Rightarrow> string) \<Rightarrow> bool \<Rightarrow> operacion list \<Rightarrow> estado \<Rightarrow> py_error + estado" where
  "iterrows_loop lower cf [] st = Inr st"
| "iterrows_loop lower cf (f # fs) st =
     (case fifo_fila lower cf st f of
        Inl e \<Rightarrow> Inl e
      | Inr st' \<Rightarrow> iterrows_loop lower cf fs st')"

text \<open>
  \<open>df.sort_values('fecha')\<close> is a function of pandas. It sorts the key column with an
  argsort and takes the rows in the order of the indices returned. The source leaves
  the argsort at its default, \<open>kind='quicksort'\<close>, for which pandas promises no order
  among equal keys; it is the parameter \<open>argsort\<close> here. What pandas promises of the
  indices is \<open>argsort_ok\<close>: they are a permutation of the positions, and the keys read
  in their order ascend.
\<close>

definition argsort_ok :: "(int list \<Rightarrow> nat list) \<Rightarrow> int list \<Rightarrow> bool" where
  "argsort_ok argsort ks \<longleftrightarrow>
     mset (argsort ks) = mset [0..<length ks] \<and> sorted (map (\<lambda>i. ks ! i) (argsort ks))"

definition claves :: "operacion list \<Rightarrow> int list" where
  "claves fs = map (\<lambda>f. ordinal (fecha f)) fs"

definition sort_values :: "(int list \<Rightarrow> nat list) \<Rightarrow> frame \<Rightarrow> frame" where
  "sort_values argsort df =
     df\<lparr>filas := map (\<lambda>i. filas df ! i) (argsort (claves (filas df)))\<rparr>"

text \<open>\<open>df['fecha'] = pd.to_datetime(df['fecha']).dt.date\<close>.\<close>

definition fecha_a_date :: "frame \<Rightarrow> frame" where
  "fecha_a_date df = df\<lparr>filas := map (\<lambda>f. f\<lparr>fecha := to_date (fecha f)\<rparr>) (filas df)\<rparr>"

text \<open>The loop of \<open>calcular_fifo\<close> over a frame, from the empty queues.\<close>

definition fifo_frame :: "(string \<Rightarrow> string) \<Rightarrow> frame \<Rightarrow> py_error + estado" where
  "fifo_frame lower df = iterrows_loop lower (con_fee df) (filas df) estado_inicial"

text \<open>The state in which the loop of \<open>calcular_fifo\<close> ends.\<close>

definition fifo_final ::
  "(int list \<Rightarrow> nat list) \<Rightarrow> (string \<Rightarrow> string) \<Rightarrow> frame \<Rightarrow> py_error + estado" where
  "fifo_final argsort lower df_operaciones =
     fifo_frame lower (sort_values argsort (fecha_a_date df_operaciones))"

definition calcular_fifo ::
  "(int list \<Rightarrow> nat list) \<Rightarrow> (string \<Rightarrow> string) \<Rightarrow> frame \<Rightarrow> py_error + venta list" where
  "calcular_fifo argsort lower df_operaciones =
     (case fifo_final argsort lower df_operaciones of
        Inl e \<Rightarrow> Inl e
      | Inr st \<Rightarrow> Inr (ventas st))"

text \<open>A stable argsort, one of the sorts that pandas offers (\<open>kind='stable'\<close>).\<close>

definition argsort_stable :: "int list \<Rightarrow> nat list" where
  "argsort_stable ks = sort_key (\<lambda>i. ks ! i) [0..<length ks]"

section \<open>\<open>calcular_fifo\<close> on frames held in a store\<close>

text \<open>
  The frames of the source are objects: \<open>df_operaciones\<close> is a reference that the caller
  keeps. The store lists the frames alive, a reference is a position in it, and a new
  frame goes to its end.
\<close>

type_synonym store = "frame list"

text \<open>\<open>df_operaciones.copy()\<close>: a new frame with the same rows.\<close>

definition df_copy :: "nat \<Rightarrow> store \<Rightarrow> nat \<times> store" where
  "df_copy a h = (length h, h @ [h ! a])"

text \<open>
  \<open>df['fecha'] = pd.to_datetime(df['fecha']).dt.date\<close>: the column of the frame \<open>df\<close> is
  replaced in place.
\<close>

definition df_set_fecha :: "nat \<Rightarrow> store \<Rightarrow> store" where
  "df_set_fecha a h = h[a := fecha_a_date (h ! a)]"

text \<open>\<open>df.sort_values('fecha')\<close>: a new frame, the rows of \<open>df\<close> in sorted order.\<close>

definition df_sort_values :: "(int list \<Rightarrow> nat list) \<Rightarrow> nat \<Rightarrow> store \<Rightarrow> nat \<times> store" where
  "df_sort_values argsort a h = (length h, h @ [sort_values argsort (h ! a)])"

text \<open>
  The function with its frames in the store. The locals \<open>colas\<close> and \<open>ventas\<close> start
  empty in every call; the result is returned with the store the call leaves.
\<close>

definition calcular_fifo_store ::
  "(int list \<Rightarrow> nat list) \<Rightarrow> (string \<Rightarrow> string) \<Rightarrow> nat \<Rightarrow> store \<Rightarrow>
     (py_error + venta list) \<times> store" where
  "calcular_fifo_store argsort lower df_operaciones h =
     (case df_copy df_operaciones h of
        (df, h1) \<Rightarrow>
          (let h2 = df_set_fecha df h1
           in case df_sort_values argsort df h2 of
                (df', h3) \<Rightarrow>
                  ((case fifo_frame lower (h3 ! df') of
                      Inl e \<Rightarrow> Inl e
                    | Inr st \<Rightarrow> Inr (ventas st)),
                   h3)))"

section \<open>\<open>calcular_irpf_ingresos\<close>\<close>

text \<open>
  \<open>Series.sum()\<close> is a function of pandas: it adds the values in binary64, in an order
  of its own. It is the parameter \<open>suma\<close> of the two tax functions.

  The function reads its frame through \<open>df_ingresos.empty\<close>, the presence of the column
  \<open>valor_eur\<close> and the values of that column. The frame is \<open>None\<close> when it has no such
  column and \<open>Some vs\<close> when the column holds \<open>vs\<close>; with a column present the frame is
  empty exactly when \<open>vs\<close> is.
\<close>

record irpf_ingresos =
  total_ingresos_eur :: f64
  irpf_ingresos_eur :: f64

definition calcular_irpf_ingresos :: "(f64 list \<Rightarrow> f64) \<Rightarrow> f64 list option \<Rightarrow> irpf_ingresos" where
  "calcular_irpf_ingresos suma df_ingresos =
     (case df_ingresos of
        None \<Rightarrow> \<lparr>total_ingresos_eur = Fin 0, irpf_ingresos_eur = Fin 0\<rparr>
      | Some vs \<Rightarrow>
          if vs = [] then \<lparr>total_ingresos_eur = Fin 0, irpf_ingresos_eur = Fin 0\<rparr>
          else
            (let total = suma vs; tipo' = rnd (19 / 100)
             in \<lparr>total_ingresos_eur = total,
                 irpf_ingresos_eur = np_round (fmul total tipo') 2\<rparr>))"

section \<open>\<open>calcular_irpf_ganancias\<close>\<close>

definition tramos :: "(f64 \<times> f64) list" where
  "tramos =
     [(Fin 6000, rnd (19 / 100)),
      (fsub (Fin 50000) (Fin 6000), rnd (21 / 100)),
      (fsub (Fin 200000) (Fin 50000), rnd (23 / 100)),
      (PInf, rnd (26 / 100))]"

text \<open>
  \<open>for limite, tipo in tramos\<close>, with the \<open>break\<close> once nothing is left; the loop state is
  \<open>restante\<close> and \<open>irpf\<close>, and the result is the final \<open>irpf\<close>.
\<close>

fun tramos_loop :: "(f64 \<times> f64) list \<Rightarrow> f64 \<Rightarrow> f64 \<Rightarrow> f64" where
  "tramos_loop [] restante irpf = irpf"
| "tramos_loop ((limite, tipo') # ts) restante irpf =
     (if fle restante (Fin 0) then irpf
      else
        (let aplicable = py_min restante limite
         in tramos_loop ts (fsub restante aplicable) (fadd irpf (fmul aplicable tipo'))))"

record irpf_ganancias =
  base_imponible_eur :: f64
  irpf_ganancias_eur :: f64

text \<open>The frame \<open>df_ganancias\<close> is the list of its rows, as \<open>calcular_fifo\<close> returns it.\<close>

definition calcular_irpf_ganancias :: "(f64 list \<Rightarrow> f64) \<Rightarrow> venta list \<Rightarrow> irpf_ganancias" where
  "calcular_irpf_ganancias suma df_ganancias =
     (let total_gan =
            (if df_ganancias \<noteq> [] then suma (map ganancia_perdida_eur df_ganancias) else Fin 0);
          irpf = tramos_loop tramos total_gan (Fin 0)
      in \<lparr>base_imponible_eur = np_round total_gan 2, irpf_ganancias_eur = np_round irpf 2\<rparr>)"

text \<open>One order of the additions: from 0.0, the values from first to last.\<close>

definition suma_en_orden :: "f64 list \<Rightarrow> f64" where
  "suma_en_orden vs = foldl fadd (Fin 0) vs"

section \<open>Notions used to state the properties\<close>

text \<open>The total that \<open>calcular_irpf_ganancias\<close> taxes.\<close>

definition total_ganancias :: "(f64 list \<Rightarrow> f64) \<Rightarrow> venta list \<Rightarrow> f64" where
  "total_ganancias suma df =
     (if df \<noteq> [] then suma (map ganancia_perdida_eur df) else Fin 0)"

text \<open>
  The scale as the specification tabulates it, tier by tier: from the first 6000 at
  19%, from the next 44000 at 21%, from the next 150000 at 23% and from the rest at 26%,
  each tier taking the smaller of what is left and its width, and nothing more once
  nothing is left.
\<close>

definition escala_spec :: "f64 \<Rightarrow> f64" where
  "escala_spec g =
     (if fle g (Fin 0) then Fin 0
      else
        (let a1 = py_min g (Fin 6000);
             t1 = fadd (Fin 0) (fmul a1 (rnd (19 / 100)));
             r1 = fsub g a1
         in if fle r1 (Fin 0) then t1
            else
              (let a2 = py_min r1 (Fin 44000);
                   t2 = fadd t1 (fmul a2 (rnd (21 / 100)));
                   r2 = fsub r1 a2
               in if fle r2 (Fin 0) then t2
                  else
                    (let a3 = py_min r2 (Fin 150000);
                         t3 = fadd t2 (fmul a3 (rnd (23 / 100)));
                         r3 = fsub r2 a3
                     in if fle r3 (Fin 0) then t3
                        else fadd t3 (fmul r3 (rnd (26 / 100)))))))"

text \<open>
  What consuming a queue whole leaves and yields: the quantity left after the lots are
  subtracted one after the other, the cost accumulated lot by lot, and the trace.
\<close>

definition resto_tras :: "f64 \<Rightarrow> lote list \<Rightarrow> f64" where
  "resto_tras r cola = foldl fsub r (map cantidad_disponible cola)"

definition coste_acum :: "f64 \<Rightarrow> lote list \<Rightarrow> f64" where
  "coste_acum c cola =
     foldl (\<lambda>c l. fadd c (fmul (cantidad_disponible l) (coste_unit l))) c cola"

definition traza_de_cola :: "lote list \<Rightarrow> traza list" where
  "traza_de_cola cola = map (\<lambda>l. (cantidad_disponible l, fecha_compra l, coste_unit l)) cola"

text \<open>The lot an entry of the trace comes from, by its date and unit cost.\<close>

definition origen :: "traza \<Rightarrow> fecha_val \<times> f64" where
  "origen e = (fst (snd e), snd (snd e))"

definition origen_lote :: "lote \<Rightarrow> fecha_val \<times> f64" where
  "origen_lote l = (fecha_compra l, coste_unit l)"

text \<open>A number that is not above zero: not a number, minus infinity, or at most 0.\<close>

fun no_pos :: "f64 \<Rightarrow> bool" where
  "no_pos (Fin a) = (a \<le> 0)"
| "no_pos PInf = False"
| "no_pos x = True"

text \<open>The queue of an asset in a state; an asset without a queue has no lots.\<close>

definition cola_de :: "estado \<Rightarrow> string \<Rightarrow> lote list" where
  "cola_de st c = (case colas st c of None \<Rightarrow> [] | Some cola \<Rightarrow> cola)"

text \<open>Every lot of every queue holds more than \<open>t\<close>; every lot holds a finite quantity.\<close>

definition lotes_sobre :: "f64 \<Rightarrow> estado \<Rightarrow> bool" where
  "lotes_sobre t st \<longleftrightarrow>
     (\<forall>c cola. colas st c = Some cola \<longrightarrow> (\<forall>l \<in> set cola. flt t (cantidad_disponible l)))"

definition lotes_finitos :: "estado \<Rightarrow> bool" where
  "lotes_finitos st \<longleftrightarrow>
     (\<forall>c cola. colas st c = Some cola \<longrightarrow> (\<forall>l \<in> set cola. finito (cantidad_disponible l)))"

text \<open>The queue of an asset when \<open>calcular_fifo\<close> ends.\<close>

definition cola_final ::
  "(int list \<Rightarrow> nat list) \<Rightarrow> (string \<Rightarrow> string) \<Rightarrow> frame \<Rightarrow> string \<Rightarrow> lote list option" where
  "cola_final argsort lower df c =
     (case fifo_final argsort lower df of Inl e \<Rightarrow> None | Inr st \<Rightarrow> colas st c)"


section \<open>Properties of binary64\<close>

lemma pow2_pos [simp]: "0 < pow2 e"
  by (simp add: pow2_def)

lemma pow2_powi: "pow2 e = 2 powi e"
  by (simp add: pow2_def power_int_def field_simps)

lemma pow2_add: "pow2 (a + b) = pow2 a * pow2 b"
  unfolding pow2_powi by (simp add: power_int_add)

lemma pow2_Suc: "pow2 (e + 1) = pow2 e * 2"
  unfolding pow2_add by (simp add: pow2_def)

lemma pow2_mono: "a \<le> b \<Longrightarrow> pow2 a \<le> pow2 b"
proof -
  assume "a \<le> b"
  then obtain n where b: "b = a + int n" by (metis zle_iff_zadd)
  have "pow2 (int n) = 2 ^ n" by (simp add: pow2_def)
  then have "1 \<le> pow2 (int n)" by simp
  then show ?thesis unfolding b pow2_add by simp
qed

lemma pow2_nat: "0 \<le> e \<Longrightarrow> pow2 e = 2 ^ nat e"
  by (simp add: pow2_def)

lemma pow2_neg_nat: "pow2 (- int n) = 1 / 2 ^ n"
  unfolding pow2_powi by (simp add: power_int_minus field_simps)

lemma rhe_0 [simp]: "rhe 0 = 0"
  by (simp add: rhe_def)

lemma rhe_le_int: "x \<le> of_int n \<Longrightarrow> rhe x \<le> n"
proof -
  assume x: "x \<le> of_int n"
  then have f: "\<lfloor>x\<rfloor> \<le> n" by (simp add: floor_le_iff)
  show ?thesis
  proof (cases "\<lfloor>x\<rfloor> = n")
    case True
    with x have "x = of_int \<lfloor>x\<rfloor>" by linarith
    then have "x - of_int \<lfloor>x\<rfloor> = 0" by simp
    then show ?thesis using True by (simp add: rhe_def Let_def)
  next
    case False
    with f have "\<lfloor>x\<rfloor> + 1 \<le> n" by simp
    then show ?thesis by (simp add: rhe_def Let_def)
  qed
qed

lemma rhe_nonneg: "0 \<le> x \<Longrightarrow> 0 \<le> rhe x"
proof -
  assume "0 \<le> x"
  then have "0 \<le> \<lfloor>x\<rfloor>" by simp
  then show ?thesis by (simp add: rhe_def Let_def)
qed

lemma rhe_nonpos: "x \<le> 0 \<Longrightarrow> rhe x \<le> 0"
  using rhe_le_int[of x 0] by simp

lemma rnd_0 [simp]: "rnd 0 = Fin 0"
  by (simp add: rnd_def Let_def)

lemma rnd_nonpos:
  assumes "y \<le> 0"
  shows "rnd y = NInf \<or> (\<exists>z. rnd y = Fin z \<and> z \<le> 0)"
proof -
  define e where "e = max (ilog2 \<bar>y\<bar> - 52) (- 1074)"
  have "y / pow2 e \<le> 0" using assms by (simp add: divide_nonpos_pos)
  then have "rhe (y / pow2 e) \<le> 0" by (rule rhe_nonpos)
  then have "of_int (rhe (y / pow2 e)) * pow2 e \<le> 0"
    by (simp add: mult_nonpos_nonneg less_imp_le)
  then show ?thesis using assms by (simp add: rnd_def Let_def e_def)
qed

lemma log2_up_bounds: "1 \<le> y \<Longrightarrow> 2 ^ log2_up y \<le> y \<and> y < 2 ^ Suc (log2_up y)"
proof (induction y rule: log2_up.induct)
  case (1 y)
  show ?case
  proof (cases "y < 2")
    case True
    with "1.prems" show ?thesis by (simp add: log2_up.simps)
  next
    case False
    then have "1 \<le> y / 2" by simp
    with "1.IH"[OF False] have "2 ^ log2_up (y / 2) \<le> y / 2 \<and> y / 2 < 2 ^ Suc (log2_up (y / 2))"
      by simp
    moreover have "log2_up y = Suc (log2_up (y / 2))"
      using False by (subst log2_up.simps) simp
    ultimately show ?thesis by simp
  qed
qed

lemma log2_down_bounds:
  "0 < y \<Longrightarrow> y < 1 \<Longrightarrow> 1 \<le> 2 ^ log2_down y * y \<and> 2 ^ log2_down y * y < 2"
proof (induction y rule: log2_down.induct)
  case (1 y)
  have s: "log2_down y = Suc (log2_down (2 * y))"
    using "1.prems" by (subst log2_down.simps) simp
  show ?case
  proof (cases "1 \<le> 2 * y")
    case True
    then have "log2_down (2 * y) = 0" by (subst log2_down.simps) simp
    with s True "1.prems" show ?thesis by simp
  next
    case False
    then have "2 * y < 1" "0 < 2 * y" using "1.prems" by simp_all
    with "1.IH" "1.prems" have "1 \<le> 2 ^ log2_down (2 * y) * (2 * y) \<and> 2 ^ log2_down (2 * y) * (2 * y) < 2"
      by simp
    with s show ?thesis by (simp add: mult.assoc mult.left_commute)
  qed
qed

lemma ilog2_bounds:
  assumes "0 < y"
  shows "pow2 (ilog2 y) \<le> y" and "y < pow2 (ilog2 y + 1)"
proof -
  show "pow2 (ilog2 y) \<le> y"
  proof (cases "1 \<le> y")
    case True
    then show ?thesis using log2_up_bounds[OF True] by (simp add: ilog2_def pow2_def)
  next
    case False
    then have y1: "y < 1" by simp
    from log2_down_bounds[OF assms y1] have "1 \<le> 2 ^ log2_down y * y" by simp
    then have "1 / 2 ^ log2_down y \<le> y" by (simp add: field_simps)
    then show ?thesis using False by (simp add: ilog2_def pow2_neg_nat)
  qed
  show "y < pow2 (ilog2 y + 1)"
  proof (cases "1 \<le> y")
    case True
    then show ?thesis using log2_up_bounds[OF True] by (simp add: ilog2_def pow2_def nat_add_distrib)
  next
    case False
    then have y1: "y < 1" by simp
    from log2_down_bounds[OF assms y1] have b: "2 ^ log2_down y * y < 2" by simp
    have "pow2 (ilog2 y + 1) = pow2 (ilog2 y) * 2" by (rule pow2_Suc)
    also have "pow2 (ilog2 y) = 1 / 2 ^ log2_down y" using False by (simp add: ilog2_def pow2_neg_nat)
    finally have e: "pow2 (ilog2 y + 1) = 2 / 2 ^ log2_down y" by simp
    from b have "y < 2 / 2 ^ log2_down y" by (simp add: field_simps)
    then show ?thesis unfolding e .
  qed
qed

lemma max_f64_pow2: "max_f64 = (2 ^ 53 - 1) * pow2 971" "max_f64 < pow2 1024" "pow2 1023 \<le> max_f64"
proof -
  show a: "max_f64 = (2 ^ 53 - 1) * pow2 971" by (simp add: max_f64_def pow2_def)
  have "pow2 1024 = pow2 53 * pow2 971" unfolding pow2_add[symmetric] by simp
  also have "pow2 53 = 2 ^ 53" by (simp add: pow2_def)
  finally have b: "pow2 1024 = 2 ^ 53 * pow2 971" .
  show "max_f64 < pow2 1024" unfolding a b by (simp add: mult_strict_right_mono)
  have "pow2 1023 = pow2 52 * pow2 971" unfolding pow2_add[symmetric] by simp
  also have "pow2 52 = 2 ^ 52" by (simp add: pow2_def)
  finally have c: "pow2 1023 = 2 ^ 52 * pow2 971" .
  show "pow2 1023 \<le> max_f64" unfolding a c by (intro mult_right_mono) (simp_all add: less_imp_le)
qed

lemma rnd_acotado:
  assumes y0: "0 \<le> y" and yM: "y \<le> max_f64"
  shows "\<exists>z. rnd y = Fin z \<and> 0 \<le> z \<and> z \<le> max_f64"
proof (cases "y = 0")
  case True
  have "0 \<le> max_f64" by (simp add: max_f64_def)
  with True show ?thesis by simp
next
  case False
  with y0 have y: "0 < y" by simp
  define k where "k = ilog2 y"
  define e where "e = max (k - 52) (- 1074)"
  define m where "m = rhe (y / pow2 e)"
  define r where "r = of_int m * pow2 e"
  have lo: "pow2 k \<le> y" and hi: "y < pow2 (k + 1)"
    using ilog2_bounds[OF y] by (simp_all add: k_def)
  have k1023: "k \<le> 1023"
  proof (rule ccontr)
    assume "\<not> k \<le> 1023"
    then have "pow2 1024 \<le> pow2 k" by (intro pow2_mono) simp
    with lo yM max_f64_pow2(2) show False by simp
  qed
  have e971: "e \<le> 971" using k1023 by (simp add: e_def)
  have m0: "0 \<le> m"
    unfolding m_def using y by (intro rhe_nonneg) (simp add: less_imp_le)
  then have r0: "0 \<le> r" by (simp add: r_def less_imp_le)
  have "k + 1 = (k - 52) + 53" by simp
  then have "pow2 (k + 1) = pow2 (k - 52) * pow2 53" by (simp only: pow2_add)
  also have "pow2 53 = 2 ^ 53" by (simp add: pow2_def)
  also have "pow2 (k - 52) \<le> pow2 e" by (intro pow2_mono) (simp add: e_def)
  finally have "pow2 (k + 1) \<le> pow2 e * 2 ^ 53" by simp
  with hi have "y < pow2 e * 2 ^ 53" by simp
  then have q: "y / pow2 e < 2 ^ 53" by (simp add: field_simps)
  have rM: "r \<le> max_f64"
  proof (cases "e \<le> 970")
    case True
    have "y / pow2 e \<le> of_int (2 ^ 53)" using q by simp
    then have "m \<le> 2 ^ 53" unfolding m_def by (rule rhe_le_int)
    then have "(of_int m :: real) \<le> 2 ^ 53" by (metis of_int_le_iff of_int_numeral of_int_power)
    then have "r \<le> 2 ^ 53 * pow2 e" unfolding r_def by (intro mult_right_mono) (simp_all add: less_imp_le)
    also have "\<dots> \<le> 2 ^ 53 * pow2 970" using True by (intro mult_left_mono pow2_mono) simp_all
    also have "(2::real) ^ 53 = pow2 53" by (simp add: pow2_def)
    also have "pow2 53 * pow2 970 = pow2 1023" unfolding pow2_add[symmetric] by simp
    finally show ?thesis using max_f64_pow2(3) by simp
  next
    case False
    with e971 have e: "e = 971" by simp
    have "y / pow2 971 \<le> 2 ^ 53 - 1"
      using yM unfolding max_f64_pow2(1) by (simp add: field_simps)
    then have "y / pow2 e \<le> of_int (2 ^ 53 - 1)" by (simp add: e)
    then have "m \<le> 2 ^ 53 - 1" unfolding m_def by (rule rhe_le_int)
    then have "(of_int m :: real) \<le> of_int (2 ^ 53 - 1)" by (simp only: of_int_le_iff)
    then have "(of_int m :: real) \<le> 2 ^ 53 - 1" by simp
    then have "r \<le> (2 ^ 53 - 1) * pow2 971"
      unfolding r_def e by (intro mult_right_mono) (simp_all add: less_imp_le)
    then show ?thesis unfolding max_f64_pow2(1) .
  qed
  have "\<bar>r\<bar> < 2 ^ 1024"
  proof -
    have "pow2 1024 = 2 ^ 1024" by (simp add: pow2_def)
    with rM max_f64_pow2(2) r0 show ?thesis by simp
  qed
  then have "rnd y = Fin r"
    using y by (simp add: rnd_def Let_def r_def m_def e_def k_def)
  with r0 rM show ?thesis by blast
qed

lemma eps9_val: "eps9 = Fin (4835703278458517 / 4835703278458516698824704)"
  by (simp add: eps9_def f64_eval)

lemma eps9_pos: "\<exists>e. eps9 = Fin e \<and> 0 < e"
  unfolding eps9_val by (intro exI conjI, rule refl) simp

lemma fsub_self: "fsub x x = Fin 0 \<or> fsub x x = NaN"
  by (cases x) (simp_all add: fsub_def)

lemma no_pos_fsub: "no_pos x \<Longrightarrow> 0 < a \<Longrightarrow> no_pos (fsub x (Fin a))"
proof (cases x)
  case (Fin z)
  assume "no_pos x" "0 < a"
  with Fin have "z - a \<le> 0" by simp
  from rnd_nonpos[OF this] Fin show ?thesis by (auto simp: fsub_def)
qed (simp_all add: fsub_def)

section \<open>Properties of the inner loop\<close>

declare consumir_fifo.simps(2) [simp del]

lemma fle_0_eps9 [simp]: "fle (Fin 0) eps9"
  by (simp add: eps9_val)

lemma no_fle_eps9: "\<not> fle (Fin z) eps9 \<Longrightarrow> flt eps9 (Fin z)"
  by (simp add: eps9_val)

lemma flt_eps9_pos: "flt eps9 (Fin z) \<Longrightarrow> 0 < z"
  by (simp add: eps9_val)

lemma fle_flt_eps9: "fle t eps9 \<Longrightarrow> flt eps9 (Fin z) \<Longrightarrow> flt t (Fin z)"
  by (cases t) (simp_all add: eps9_val)

lemma consumir_fifo_cero:
  "\<not> flt (Fin 0) r \<Longrightarrow> consumir_fifo r cola c i = (r, cola, c, i)"
  by (cases cola) (simp_all add: consumir_fifo.simps(2))

lemma consumir_fifo_pop:
  "flt (Fin 0) r \<Longrightarrow>
   fle (fsub (cantidad_disponible l) (py_min r (cantidad_disponible l))) eps9 \<Longrightarrow>
   consumir_fifo r (l # resto) c i =
     consumir_fifo (fsub r (py_min r (cantidad_disponible l))) resto
       (fadd c (fmul (py_min r (cantidad_disponible l)) (coste_unit l)))
       (i @ [(py_min r (cantidad_disponible l), fecha_compra l, coste_unit l)])"
  by (subst consumir_fifo.simps(2)) (simp add: Let_def)

lemma consumir_fifo_keep:
  "flt (Fin 0) r \<Longrightarrow>
   \<not> fle (fsub (cantidad_disponible l) (py_min r (cantidad_disponible l))) eps9 \<Longrightarrow>
   consumir_fifo r (l # resto) c i =
     consumir_fifo (fsub r (py_min r (cantidad_disponible l)))
       (l\<lparr>cantidad_disponible :=
            fsub (cantidad_disponible l) (py_min r (cantidad_disponible l))\<rparr> # resto)
       (fadd c (fmul (py_min r (cantidad_disponible l)) (coste_unit l)))
       (i @ [(py_min r (cantidad_disponible l), fecha_compra l, coste_unit l)])"
  by (subst consumir_fifo.simps(2)) (simp add: Let_def)

text \<open>With a finite head lot, an iteration that keeps the lot has taken all that was left.\<close>

lemma keep_finito:
  assumes q: "cantidad_disponible l = Fin a" and r: "flt (Fin 0) r"
    and keep: "\<not> fle (fsub (Fin a) (py_min r (Fin a))) eps9"
  shows "\<exists>b. r = Fin b \<and> 0 < b \<and> b \<le> a \<and> py_min r (Fin a) = Fin b"
proof -
  have "\<not> flt (Fin a) r"
  proof
    assume "flt (Fin a) r"
    then have "py_min r (Fin a) = Fin a" by (simp add: py_min_def)
    with keep show False by (simp add: fsub_def)
  qed
  with r show ?thesis by (cases r) (simp_all add: py_min_def)
qed

lemma consumir_fifo_keep_finito:
  assumes q: "cantidad_disponible l = Fin a" and r: "flt (Fin 0) r"
    and keep: "\<not> fle (fsub (Fin a) (py_min r (Fin a))) eps9"
  shows "consumir_fifo r (l # resto) c i =
     (Fin 0, l\<lparr>cantidad_disponible := fsub (Fin a) r\<rparr> # resto,
      fadd c (fmul r (coste_unit l)), i @ [(r, fecha_compra l, coste_unit l)])"
proof -
  obtain b where b: "r = Fin b" "py_min r (Fin a) = Fin b"
    using keep_finito[OF q r keep] by blast
  have "fsub r r = Fin 0" using b by (simp add: fsub_def)
  then show ?thesis
    using consumir_fifo_keep[of r l resto c i] r keep q b
    by (simp add: consumir_fifo_cero)
qed

text \<open>Lots that are finite and above a threshold stay so.\<close>

lemma consumir_fifo_sobre:
  assumes t: "fle t eps9"
    and cola: "\<forall>l \<in> set cola. flt t (cantidad_disponible l) \<and> finito (cantidad_disponible l)"
    and res: "consumir_fifo r cola c i = (r', cola', c', i')"
  shows "\<forall>l \<in> set cola'. flt t (cantidad_disponible l) \<and> finito (cantidad_disponible l)"
  using cola res
proof (induction cola arbitrary: r c i)
  case Nil
  then show ?case by simp
next
  case (Cons l resto)
  from Cons.prems(1) obtain a where q: "cantidad_disponible l = Fin a" and aM: "\<bar>a\<bar> \<le> max_f64"
    by (cases "cantidad_disponible l") auto
  show ?case
  proof (cases "flt (Fin 0) r")
    case False
    with Cons.prems show ?thesis by (auto simp: consumir_fifo_cero)
  next
    case True
    show ?thesis
    proof (cases "fle (fsub (Fin a) (py_min r (Fin a))) eps9")
      case pop: True
      from Cons.prems(2) have "consumir_fifo (fsub r (py_min r (Fin a))) resto
         (fadd c (fmul (py_min r (Fin a)) (coste_unit l)))
         (i @ [(py_min r (Fin a), fecha_compra l, coste_unit l)]) = (r', cola', c', i')"
        using consumir_fifo_pop[of r l resto c i] True pop q by simp
      with Cons.IH Cons.prems(1) show ?thesis by simp
    next
      case keep: False
      obtain b where b: "r = Fin b" "0 < b" "b \<le> a" "py_min r (Fin a) = Fin b"
        using keep_finito[OF q True keep] by blast
      have "0 \<le> a - b" "a - b \<le> max_f64" using b aM by simp_all
      from rnd_acotado[OF this] obtain z where z: "rnd (a - b) = Fin z" "0 \<le> z" "z \<le> max_f64"
        by blast
      then have s: "fsub (Fin a) r = Fin z" using b by (simp add: fsub_def)
      from keep b s have "flt eps9 (Fin z)" by (simp add: no_fle_eps9)
      with t have "flt t (Fin z)" by (rule fle_flt_eps9)
      moreover have "finito (Fin z)" using z by simp
      moreover from Cons.prems(2) have "cola' = l\<lparr>cantidad_disponible := fsub (Fin a) r\<rparr> # resto"
        by (simp add: consumir_fifo_keep_finito[OF q True keep])
      ultimately show ?thesis using Cons.prems(1) s by simp
    qed
  qed
qed

text \<open>Positive finite lots, all of them smaller than what is left: the queue is consumed whole.\<close>

lemma no_pos_resto_tras:
  "no_pos x \<Longrightarrow> \<forall>l \<in> set cola. \<exists>a. cantidad_disponible l = Fin a \<and> 0 < a \<Longrightarrow>
   no_pos (resto_tras x cola)"
proof (induction cola arbitrary: x)
  case Nil
  then show ?case by (simp add: resto_tras_def)
next
  case (Cons l resto)
  from Cons.prems(2) obtain a where a: "cantidad_disponible l = Fin a" "0 < a" by auto
  have "no_pos (fsub x (Fin a))" using Cons.prems(1) a(2) by (rule no_pos_fsub)
  from Cons.IH[OF this] Cons.prems(2) a show ?case by (simp add: resto_tras_def)
qed

lemma no_pos_no_sobre: "no_pos x \<Longrightarrow> \<not> flt eps9 x"
  by (cases x) (simp_all add: eps9_val)

lemma consumir_fifo_agota:
  assumes lotes: "\<forall>l \<in> set cola. \<exists>a. cantidad_disponible l = Fin a \<and> 0 < a"
    and falta: "flt eps9 (resto_tras r cola)"
  shows "consumir_fifo r cola c i =
     (resto_tras r cola, [], coste_acum c cola, i @ traza_de_cola cola)"
  using lotes falta
proof (induction cola arbitrary: r c i)
  case Nil
  then show ?case by (simp add: resto_tras_def coste_acum_def traza_de_cola_def)
next
  case (Cons l resto)
  from Cons.prems(1) obtain a where a: "cantidad_disponible l = Fin a" "0 < a" by auto
  have rest: "\<forall>l \<in> set resto. \<exists>a. cantidad_disponible l = Fin a \<and> 0 < a"
    using Cons.prems(1) by simp
  have f: "resto_tras r (l # resto) = resto_tras (fsub r (Fin a)) resto"
    using a by (simp add: resto_tras_def)
  have lt: "flt (Fin a) r"
  proof (rule ccontr)
    assume n: "\<not> flt (Fin a) r"
    have "no_pos (fsub r (Fin a))"
    proof (cases r)
      case (Fin b)
      with n have "b - a \<le> 0" by simp
      from rnd_nonpos[OF this] Fin show ?thesis by (auto simp: fsub_def)
    next
      case PInf
      with n show ?thesis by simp
    qed (simp_all add: fsub_def)
    from no_pos_no_sobre[OF no_pos_resto_tras[OF this rest]] Cons.prems(2) f
    show False by simp
  qed
  then have r0: "flt (Fin 0) r" using a(2) by (cases r) simp_all
  have m: "py_min r (Fin a) = Fin a" using lt by (simp add: py_min_def)
  have pop: "fle (fsub (cantidad_disponible l) (py_min r (cantidad_disponible l))) eps9"
    by (simp add: a m fsub_def)
  have "consumir_fifo r (l # resto) c i =
      consumir_fifo (fsub r (Fin a)) resto (fadd c (fmul (Fin a) (coste_unit l)))
        (i @ [(Fin a, fecha_compra l, coste_unit l)])"
    using consumir_fifo_pop[OF r0 pop, of resto c i] by (simp add: a m)
  also have "\<dots> = (resto_tras (fsub r (Fin a)) resto, [],
      coste_acum (fadd c (fmul (Fin a) (coste_unit l))) resto,
      (i @ [(Fin a, fecha_compra l, coste_unit l)]) @ traza_de_cola resto)"
    using Cons.prems(2) f by (intro Cons.IH[OF rest]) simp
  finally show ?case
    using a by (simp add: f coste_acum_def traza_de_cola_def)
qed

lemma origen_entrada [simp]: "origen (t, fecha_compra l, coste_unit l) = origen_lote l"
  by (simp add: origen_def origen_lote_def)

section \<open>Properties of the row loop\<close>

lemma asegurar_cola_at:
  "asegurar_cola cs c c = Some (case cs c of None \<Rightarrow> [] | Some cola \<Rightarrow> cola)"
  by (auto simp: asegurar_cola_def)

lemma asegurar_cola_upd: "(asegurar_cola cs c)(c \<mapsto> x) = cs(c \<mapsto> x)"
  by (auto simp: asegurar_cola_def)

lemma fifo_fila_skip:
  "fle (cantidad f) (Fin 0) \<or> cripto_de lower f = [] \<Longrightarrow> fifo_fila lower cf st f = Inr st"
  by (auto simp: fifo_fila_def)

lemma fifo_fila_compra:
  "\<not> fle (cantidad f) (Fin 0) \<Longrightarrow> cripto_de lower f \<noteq> [] \<Longrightarrow> tipo f = ''Compra'' \<Longrightarrow>
   fifo_fila lower cf st f =
     Inr (st\<lparr>colas := (colas st)(cripto_de lower f \<mapsto>
            cola_de st (cripto_de lower f) @
              [\<lparr>cantidad_disponible = cantidad f,
                coste_unit = fdiv (fadd (valor_eur f) (fee_de cf f)) (cantidad f),
                fecha_compra = fecha f\<rparr>])\<rparr>)"
  by (auto simp: fifo_fila_def Let_def asegurar_cola_at asegurar_cola_upd cola_de_def)

lemma fifo_fila_venta:
  "\<not> fle (cantidad f) (Fin 0) \<Longrightarrow> cripto_de lower f \<noteq> [] \<Longrightarrow>
   tipo f = ''Venta'' \<or> tipo f = ''Donacion'' \<Longrightarrow>
   consumir_fifo (cantidad f) (cola_de st (cripto_de lower f)) (Fin 0) [] =
     (restante, cola', coste_adq, lotes_info) \<Longrightarrow>
   fifo_fila lower cf st f =
     Inr \<lparr>colas = (colas st)(cripto_de lower f \<mapsto> cola'),
          ventas = ventas st @
            [\<lparr>fecha_venta = fecha f,
              cripto_venta = cripto_de lower f,
              tipo_operacion = tipo f,
              cantidad_vendida = cantidad f,
              valor_transmision_bruto_eur = valor_eur f,
              comision_venta_eur = fee_de cf f,
              valor_transmision_neto_eur = fsub (valor_eur f) (fee_de cf f),
              coste_adquisicion_total_eur = coste_adq,
              ganancia_perdida_eur = fsub (fsub (valor_eur f) (fee_de cf f)) coste_adq,
              nota = (if flt eps9 restante then SinHistorico restante (cripto_de lower f)
                      else NotaVacia),
              lotes_origen_info = join_or_na lotes_info\<rparr>]\<rparr>"
  by (auto simp: fifo_fila_def Let_def asegurar_cola_at asegurar_cola_upd cola_de_def)

lemma fifo_fila_otro:
  "\<not> fle (cantidad f) (Fin 0) \<Longrightarrow> cripto_de lower f \<noteq> [] \<Longrightarrow> tipo f \<noteq> ''Compra'' \<Longrightarrow>
   tipo f \<noteq> ''Venta'' \<Longrightarrow> tipo f \<noteq> ''Donacion'' \<Longrightarrow>
   fifo_fila lower cf st f = Inr (st\<lparr>colas := asegurar_cola (colas st) (cripto_de lower f)\<rparr>)"
  by (simp add: fifo_fila_def Let_def)

lemma fifo_fila_total: "\<exists>st'. fifo_fila lower cf st f = Inr st'"
proof (cases "fle (cantidad f) (Fin 0) \<or> cripto_de lower f = []")
  case True
  then show ?thesis by (simp add: fifo_fila_skip)
next
  case False
  then have v: "\<not> fle (cantidad f) (Fin 0)" "cripto_de lower f \<noteq> []" by auto
  consider "tipo f = ''Compra''" | "tipo f = ''Venta'' \<or> tipo f = ''Donacion''"
    | "tipo f \<noteq> ''Compra''" "tipo f \<noteq> ''Venta''" "tipo f \<noteq> ''Donacion''" by blast
  then show ?thesis
  proof cases
    case 1
    then show ?thesis using fifo_fila_compra[OF v] by blast
  next
    case 2
    obtain r q c i where
      "consumir_fifo (cantidad f) (cola_de st (cripto_de lower f)) (Fin 0) [] = (r, q, c, i)"
      by (metis prod_cases4)
    then show ?thesis using fifo_fila_venta[OF v 2] by blast
  next
    case 3
    then show ?thesis using fifo_fila_otro[OF v] by blast
  qed
qed

lemma iterrows_loop_total: "\<exists>st'. iterrows_loop lower cf fs st = Inr st'"
proof (induction fs arbitrary: st)
  case Nil
  show ?case by simp
next
  case (Cons f fs)
  obtain st1 where "fifo_fila lower cf st f = Inr st1" using fifo_fila_total by blast
  with Cons.IH[of st1] show ?case by simp
qed

lemma iterrows_loop_append:
  "iterrows_loop lower cf (xs @ ys) st =
     (case iterrows_loop lower cf xs st of
        Inl e \<Rightarrow> Inl e
      | Inr st' \<Rightarrow> iterrows_loop lower cf ys st')"
  by (induction xs arbitrary: st) (auto split: sum.splits)

text \<open>The invariant of the queues: every lot is finite and above a threshold.\<close>

lemma lotes_cola_de:
  "lotes_sobre t st \<Longrightarrow> lotes_finitos st \<Longrightarrow>
   \<forall>l \<in> set (cola_de st c). flt t (cantidad_disponible l) \<and> finito (cantidad_disponible l)"
  by (cases "colas st c") (auto simp: lotes_sobre_def lotes_finitos_def cola_de_def)

lemma lotes_upd:
  "lotes_sobre t st \<Longrightarrow> lotes_finitos st \<Longrightarrow>
   \<forall>l \<in> set cola. flt t (cantidad_disponible l) \<and> finito (cantidad_disponible l) \<Longrightarrow>
   colas st' = (colas st)(c \<mapsto> cola) \<Longrightarrow> lotes_sobre t st' \<and> lotes_finitos st'"
  by (auto simp: lotes_sobre_def lotes_finitos_def)

lemma fifo_fila_sobre:
  assumes t: "fle t eps9" and inv: "lotes_sobre t st" "lotes_finitos st"
    and compra: "tipo f = ''Compra'' \<and> \<not> fle (cantidad f) (Fin 0) \<longrightarrow>
                   flt t (cantidad f) \<and> finito (cantidad f)"
    and step: "fifo_fila lower cf st f = Inr st'"
  shows "lotes_sobre t st' \<and> lotes_finitos st'"
proof (cases "fle (cantidad f) (Fin 0) \<or> cripto_de lower f = []")
  case True
  with step inv show ?thesis by (simp add: fifo_fila_skip)
next
  case False
  then have v: "\<not> fle (cantidad f) (Fin 0)" "cripto_de lower f \<noteq> []" by auto
  note q = lotes_cola_de[OF inv, of "cripto_de lower f"]
  consider "tipo f = ''Compra''" | "tipo f = ''Venta'' \<or> tipo f = ''Donacion''"
    | "tipo f \<noteq> ''Compra''" "tipo f \<noteq> ''Venta''" "tipo f \<noteq> ''Donacion''" by blast
  then show ?thesis
  proof cases
    case 1
    with compra v have "flt t (cantidad f) \<and> finito (cantidad f)" by simp
    with q step show ?thesis
      unfolding fifo_fila_compra[OF v 1]
      by (intro lotes_upd[OF inv, where c = "cripto_de lower f"
            and cola = "cola_de st (cripto_de lower f) @
              [\<lparr>cantidad_disponible = cantidad f,
                coste_unit = fdiv (fadd (valor_eur f) (fee_de cf f)) (cantidad f),
                fecha_compra = fecha f\<rparr>]"]) auto
  next
    case 2
    obtain r q' c i where
      c: "consumir_fifo (cantidad f) (cola_de st (cripto_de lower f)) (Fin 0) [] = (r, q', c, i)"
      by (metis prod_cases4)
    have "\<forall>l \<in> set q'. flt t (cantidad_disponible l) \<and> finito (cantidad_disponible l)"
      using consumir_fifo_sobre[OF t q c] .
    with step show ?thesis
      unfolding fifo_fila_venta[OF v 2 c]
      by (intro lotes_upd[OF inv, where c = "cripto_de lower f" and cola = q']) auto
  next
    case 3
    with step have "colas st' = asegurar_cola (colas st) (cripto_de lower f)"
      unfolding fifo_fila_otro[OF v 3] by auto
    with inv show ?thesis
      by (auto simp: lotes_sobre_def lotes_finitos_def asegurar_cola_def split: if_splits)
  qed
qed

lemma iterrows_loop_sobre:
  "fle t eps9 \<Longrightarrow> lotes_sobre t st \<Longrightarrow> lotes_finitos st \<Longrightarrow>
   \<forall>f \<in> set fs. tipo f = ''Compra'' \<and> \<not> fle (cantidad f) (Fin 0) \<longrightarrow>
      flt t (cantidad f) \<and> finito (cantidad f) \<Longrightarrow>
   iterrows_loop lower cf fs st = Inr st' \<Longrightarrow> lotes_sobre t st' \<and> lotes_finitos st'"
proof (induction fs arbitrary: st)
  case Nil
  then show ?case by simp
next
  case (Cons f fs)
  obtain st1 where s1: "fifo_fila lower cf st f = Inr st1" using fifo_fila_total by blast
  have "lotes_sobre t st1 \<and> lotes_finitos st1"
    using fifo_fila_sobre[OF Cons.prems(1,2,3) _ s1] Cons.prems(4) by simp
  with Cons.IH[of st1] Cons.prems s1 show ?case by simp
qed

lemma lotes_inicial: "lotes_sobre t estado_inicial" "lotes_finitos estado_inicial"
  by (simp_all add: lotes_sobre_def lotes_finitos_def estado_inicial_def)

section \<open>Properties of the sort\<close>

lemma argsort_ok_perm:
  assumes "argsort_ok argsort ks"
  shows "set (argsort ks) = {..<length ks}" and "distinct (argsort ks)"
    and "length (argsort ks) = length ks"
proof -
  from assms have m: "mset (argsort ks) = mset [0..<length ks]"
    by (simp add: argsort_ok_def)
  from mset_eq_setD[OF m] show "set (argsort ks) = {..<length ks}" by (simp add: lessThan_atLeast0)
  from mset_eq_imp_distinct_iff[OF m] show "distinct (argsort ks)" by simp
  from mset_eq_length[OF m] show "length (argsort ks) = length ks" by simp
qed

lemma argsort_identidad:
  assumes ks: "sorted_wrt (<) ks" and ok: "argsort_ok argsort ks"
  shows "argsort ks = [0..<length ks]"
proof -
  let ?p = "argsort ks"
  note perm = argsort_ok_perm[OF ok]
  from ok have srt: "sorted (map (\<lambda>i. ks ! i) ?p)" by (simp add: argsort_ok_def)
  have "sorted ?p"
    unfolding sorted_iff_nth_mono_less
  proof (intro allI impI)
    fix i j assume ij: "i < j" and j: "j < length ?p"
    have "?p ! i \<in> set ?p" and "?p ! j \<in> set ?p"
      using ij j by simp_all
    then have pi: "?p ! i < length ks" and pj: "?p ! j < length ks"
      unfolding perm(1) by simp_all
    show "?p ! i \<le> ?p ! j"
    proof (rule ccontr)
      assume "\<not> ?p ! i \<le> ?p ! j"
      then have lt: "?p ! j < ?p ! i" by simp
      from ks lt pi have "ks ! (?p ! j) < ks ! (?p ! i)"
        unfolding sorted_wrt_iff_nth_less by blast
      moreover have "map (\<lambda>i. ks ! i) ?p ! i \<le> map (\<lambda>i. ks ! i) ?p ! j"
        using srt ij j unfolding sorted_iff_nth_mono_less by simp
      then have "ks ! (?p ! i) \<le> ks ! (?p ! j)"
        using ij j by simp
      ultimately show False by simp
    qed
  qed
  moreover have "set ?p = set [0..<length ks]"
    using perm(1) by (simp add: lessThan_atLeast0)
  ultimately show ?thesis
    using perm(2) by (intro sorted_distinct_set_unique) simp_all
qed

lemma sort_values_identidad:
  "sorted_wrt (<) (claves (filas df)) \<Longrightarrow> argsort_ok argsort (claves (filas df)) \<Longrightarrow>
   sort_values argsort df = df"
  by (simp add: sort_values_def argsort_identidad claves_def map_nth)

lemma cripto_de_fecha [simp]: "cripto_de lower (f\<lparr>fecha := x\<rparr>) = cripto_de lower f"
  by (simp add: cripto_de_def)

lemma fee_de_fecha [simp]: "fee_de cf (f\<lparr>fecha := x\<rparr>) = fee_de cf f"
  by (simp add: fee_de_def)

lemma ordinal_to_date [simp]: "ordinal (to_date v) = ordinal v"
  by (simp add: to_date_def)

lemma claves_fecha_a_date [simp]: "claves (filas (fecha_a_date df)) = claves (filas df)"
  by (simp add: fecha_a_date_def claves_def)

lemma con_fee_fecha_a_date [simp]: "con_fee (fecha_a_date df) = con_fee df"
  by (simp add: fecha_a_date_def)

lemma con_fee_sort_values [simp]: "con_fee (sort_values argsort df) = con_fee df"
  by (simp add: sort_values_def)

section \<open>Rows that differ in letter case\<close>










lemma lower_ok_ascii: "lower_ok ascii_lower"
  by (simp add: lower_ok_def ascii_lower_def)

lemma cripto_de_no_vacio: "lower_ok lower \<Longrightarrow> cripto f \<noteq> [] \<Longrightarrow> cripto_de lower f \<noteq> []"
  by (simp add: lower_ok_def cripto_de_def)

lemma cripto_de_vacio: "lower_ok lower \<Longrightarrow> cripto f = [] \<Longrightarrow> cripto_de lower f = []"
  by (simp add: lower_ok_def cripto_de_def)

lemma resto_tras_sobre:
  assumes lotes: "\<forall>l \<in> set cola. \<exists>a. cantidad_disponible l = Fin a \<and> 0 < a"
    and falta: "flt eps9 (resto_tras r cola)"
  shows "\<not> fle r (Fin 0)"
proof
  assume "fle r (Fin 0)"
  then have "no_pos r" by (cases r) simp_all
  from no_pos_no_sobre[OF no_pos_resto_tras[OF this lotes]] falta show False by simp
qed

lemma fle_0_fle_eps9: "fle x (Fin 0) \<Longrightarrow> fle x eps9"
  by (cases x) (simp_all add: eps9_val)

lemma no_flt_fsub_self: "\<not> flt (Fin 0) (fsub x x)"
  using fsub_self[of x] by auto

lemma keep_toma_todo:
  assumes q: "cantidad_disponible l \<noteq> NInf"
    and keep: "\<not> fle (fsub (cantidad_disponible l) (py_min r (cantidad_disponible l))) eps9"
  shows "py_min r (cantidad_disponible l) = r"
proof -
  have "\<not> flt (cantidad_disponible l) r"
  proof
    assume lt: "flt (cantidad_disponible l) r"
    then have m: "py_min r (cantidad_disponible l) = cantidad_disponible l"
      by (simp add: py_min_def)
    show False
    proof (cases "cantidad_disponible l")
      case (Fin a)
      with keep m show False by (simp add: fsub_def)
    next
      case PInf
      with lt show False by (cases r) simp_all
    next
      case NInf
      with q show False by simp
    next
      case NaN
      with lt show False by (cases r) simp_all
    qed
  qed
  then show ?thesis by (simp add: py_min_def)
qed

lemma consumir_fifo_keep_fin:
  assumes q: "cantidad_disponible l \<noteq> NInf" and r: "flt (Fin 0) r"
    and keep: "\<not> fle (fsub (cantidad_disponible l) (py_min r (cantidad_disponible l))) eps9"
  shows "consumir_fifo r (l # resto) c i =
     (fsub r r, l\<lparr>cantidad_disponible := fsub (cantidad_disponible l) r\<rparr> # resto,
      fadd c (fmul r (coste_unit l)), i @ [(r, fecha_compra l, coste_unit l)])"
  unfolding consumir_fifo_keep[OF r keep] keep_toma_todo[OF q keep]
  by (rule consumir_fifo_cero[OF no_flt_fsub_self])

lemma consumir_fifo_prefijo:
  assumes lotes: "\<forall>l \<in> set cola. cantidad_disponible l \<noteq> NInf"
    and res: "consumir_fifo r cola c i = (r', cola', c', i')"
  shows "\<exists>n ts. n \<le> length cola \<and> i' = i @ ts \<and>
           map origen ts = map origen_lote (take n cola) \<and>
           (cola' = drop n cola \<or>
            (0 < n \<and> (\<exists>z. cola' = (cola ! (n - 1))\<lparr>cantidad_disponible := z\<rparr> # drop n cola)))"
  using lotes res
proof (induction cola arbitrary: r c i)
  case Nil
  then show ?case by simp
next
  case (Cons l resto)
  from Cons.prems(1) have q: "cantidad_disponible l \<noteq> NInf" by simp
  have rest: "\<forall>l \<in> set resto. cantidad_disponible l \<noteq> NInf" using Cons.prems(1) by simp
  show ?case
  proof (cases "flt (Fin 0) r")
    case False
    with Cons.prems(2) have "i' = i" "cola' = l # resto" by (simp_all add: consumir_fifo_cero)
    then show ?thesis by (intro exI[of _ 0] exI[of _ "[]"]) simp
  next
    case True
    let ?t = "py_min r (cantidad_disponible l)"
    let ?e = "(?t, fecha_compra l, coste_unit l)"
    show ?thesis
    proof (cases "fle (fsub (cantidad_disponible l) ?t) eps9")
      case pop: True
      from Cons.prems(2) have "consumir_fifo (fsub r ?t) resto
         (fadd c (fmul ?t (coste_unit l))) (i @ [?e]) = (r', cola', c', i')"
        using consumir_fifo_pop[OF True pop] by simp
      from Cons.IH[OF rest this] obtain n ts where n: "n \<le> length resto"
        and i': "i' = (i @ [?e]) @ ts"
        and o: "map origen ts = map origen_lote (take n resto)"
        and c': "cola' = drop n resto \<or>
            (0 < n \<and> (\<exists>z. cola' = (resto ! (n - 1))\<lparr>cantidad_disponible := z\<rparr> # drop n resto))"
        by blast
      have "cola' = drop (Suc n) (l # resto) \<or>
          (0 < Suc n \<and> (\<exists>z. cola' = ((l # resto) ! (Suc n - 1))\<lparr>cantidad_disponible := z\<rparr>
             # drop (Suc n) (l # resto)))"
        using c' by (cases n) auto
      then show ?thesis
        using n i' o by (intro exI[of _ "Suc n"] exI[of _ "?e # ts"]) simp
    next
      case keep: False
      from Cons.prems(2) have "i' = i @ [(r, fecha_compra l, coste_unit l)]"
        and "cola' = l\<lparr>cantidad_disponible := fsub (cantidad_disponible l) r\<rparr> # resto"
        by (simp_all add: consumir_fifo_keep_fin[OF q True keep])
      then show ?thesis
        by (intro exI[of _ 1] exI[of _ "[(r, fecha_compra l, coste_unit l)]"]) auto
    qed
  qed
qed

text \<open>No lot of a queue holds a quantity that is at most 0.\<close>

lemma consumir_fifo_validos:
  assumes cola: "\<forall>l \<in> set cola. \<not> fle (cantidad_disponible l) (Fin 0)"
    and res: "consumir_fifo r cola c i = (r', cola', c', i')"
  shows "\<forall>l \<in> set cola'. \<not> fle (cantidad_disponible l) (Fin 0)"
  using cola res
proof (induction cola arbitrary: r c i)
  case Nil
  then show ?case by simp
next
  case (Cons l resto)
  from Cons.prems(1) have q0: "\<not> fle (cantidad_disponible l) (Fin 0)" by simp
  then have q: "cantidad_disponible l \<noteq> NInf" by auto
  have rest: "\<forall>l \<in> set resto. \<not> fle (cantidad_disponible l) (Fin 0)"
    using Cons.prems(1) by simp
  show ?case
  proof (cases "flt (Fin 0) r")
    case False
    with Cons.prems show ?thesis by (auto simp: consumir_fifo_cero)
  next
    case True
    let ?t = "py_min r (cantidad_disponible l)"
    show ?thesis
    proof (cases "fle (fsub (cantidad_disponible l) ?t) eps9")
      case pop: True
      from Cons.prems(2) have "consumir_fifo (fsub r ?t) resto
         (fadd c (fmul ?t (coste_unit l))) (i @ [(?t, fecha_compra l, coste_unit l)]) =
           (r', cola', c', i')"
        using consumir_fifo_pop[OF True pop] by simp
      from Cons.IH[OF rest this] show ?thesis .
    next
      case keep: False
      from keep have k: "\<not> fle (fsub (cantidad_disponible l) r) eps9"
        by (simp add: keep_toma_todo[OF q keep])
      then have "\<not> fle (fsub (cantidad_disponible l) r) (Fin 0)"
        using fle_0_fle_eps9 by blast
      moreover from Cons.prems(2)
      have "cola' = l\<lparr>cantidad_disponible := fsub (cantidad_disponible l) r\<rparr> # resto"
        by (simp add: consumir_fifo_keep_fin[OF q True keep])
      ultimately show ?thesis using rest by simp
    qed
  qed
qed

lemma cola_de_upd:
  "colas st' = (colas st)(c \<mapsto> x) \<Longrightarrow> cola_de st' c' = (if c' = c then x else cola_de st c')"
  by (simp add: cola_de_def)

lemma fifo_fila_validos:
  assumes inv: "\<forall>c. \<forall>l \<in> set (cola_de st c). \<not> fle (cantidad_disponible l) (Fin 0)"
    and step: "fifo_fila lower cf st f = Inr st'"
  shows "\<forall>c. \<forall>l \<in> set (cola_de st' c). \<not> fle (cantidad_disponible l) (Fin 0)"
proof (cases "fle (cantidad f) (Fin 0) \<or> cripto_de lower f = []")
  case True
  with step inv show ?thesis by (simp add: fifo_fila_skip)
next
  case False
  then have v: "\<not> fle (cantidad f) (Fin 0)" "cripto_de lower f \<noteq> []" by auto
  consider "tipo f = ''Compra''" | "tipo f = ''Venta'' \<or> tipo f = ''Donacion''"
    | "tipo f \<noteq> ''Compra''" "tipo f \<noteq> ''Venta''" "tipo f \<noteq> ''Donacion''" by blast
  then show ?thesis
  proof cases
    case 1
    from step have "colas st' = (colas st)(cripto_de lower f \<mapsto>
        cola_de st (cripto_de lower f) @
          [\<lparr>cantidad_disponible = cantidad f,
            coste_unit = fdiv (fadd (valor_eur f) (fee_de cf f)) (cantidad f),
            fecha_compra = fecha f\<rparr>])"
      unfolding fifo_fila_compra[OF v 1] by auto
    from cola_de_upd[OF this] inv v(1) show ?thesis by auto
  next
    case 2
    obtain r q' c i where
      c: "consumir_fifo (cantidad f) (cola_de st (cripto_de lower f)) (Fin 0) [] = (r, q', c, i)"
      by (metis prod_cases4)
    have q': "\<forall>l \<in> set q'. \<not> fle (cantidad_disponible l) (Fin 0)"
      using consumir_fifo_validos[OF _ c] inv by blast
    from step have "colas st' = (colas st)(cripto_de lower f \<mapsto> q')"
      unfolding fifo_fila_venta[OF v 2 c] by auto
    from cola_de_upd[OF this] inv q' show ?thesis by auto
  next
    case 3
    from step have "colas st' = asegurar_cola (colas st) (cripto_de lower f)"
      unfolding fifo_fila_otro[OF v 3] by auto
    then have "cola_de st' c = cola_de st c" for c
      by (auto simp: cola_de_def asegurar_cola_def split: option.splits)
    with inv show ?thesis by simp
  qed
qed

lemma iterrows_loop_validos:
  "\<forall>c. \<forall>l \<in> set (cola_de st c). \<not> fle (cantidad_disponible l) (Fin 0) \<Longrightarrow>
   iterrows_loop lower cf fs st = Inr st' \<Longrightarrow>
   \<forall>c. \<forall>l \<in> set (cola_de st' c). \<not> fle (cantidad_disponible l) (Fin 0)"
proof (induction fs arbitrary: st)
  case Nil
  then show ?case by simp
next
  case (Cons f fs)
  obtain st1 where s1: "fifo_fila lower cf st f = Inr st1" using fifo_fila_total by blast
  from fifo_fila_validos[OF Cons.prems(1) s1] Cons.IH[of st1] Cons.prems(2) s1
  show ?case by simp
qed

lemma lotes_validos:
  assumes "iterrows_loop lower cf fs estado_inicial = Inr st"
  shows "\<forall>l \<in> set (cola_de st c). \<not> fle (cantidad_disponible l) (Fin 0)"
proof -
  have "\<forall>c. \<forall>l \<in> set (cola_de estado_inicial c). \<not> fle (cantidad_disponible l) (Fin 0)"
    by (simp add: cola_de_def estado_inicial_def)
  from iterrows_loop_validos[OF this assms] show ?thesis by blast
qed

text \<open>
  A remainder above \<open>1e-9\<close> is left only by lots of finite quantities: an infinite lot,
  or one that is not a number, leaves minus infinity or not a number.
\<close>

lemma resto_tras_malo:
  "x = NInf \<or> x = NaN \<Longrightarrow> \<forall>l \<in> set cola. cantidad_disponible l \<noteq> NInf \<Longrightarrow>
   resto_tras x cola = NInf \<or> resto_tras x cola = NaN"
proof (induction cola arbitrary: x)
  case Nil
  then show ?case by (simp add: resto_tras_def)
next
  case (Cons l cola)
  from Cons.prems have "fsub x (cantidad_disponible l) = NInf \<or> fsub x (cantidad_disponible l) = NaN"
    by (cases "cantidad_disponible l") (auto simp: fsub_def)
  from Cons.IH[OF this] Cons.prems(2) show ?case by (simp add: resto_tras_def)
qed

lemma falta_lotes_finitos:
  assumes "\<forall>l \<in> set cola. \<not> fle (cantidad_disponible l) (Fin 0)"
    and "flt eps9 (resto_tras r cola)"
  shows "\<forall>l \<in> set cola. \<exists>a. cantidad_disponible l = Fin a \<and> 0 < a"
  using assms
proof (induction cola arbitrary: r)
  case Nil
  then show ?case by simp
next
  case (Cons l cola)
  have rest: "\<forall>l \<in> set cola. \<not> fle (cantidad_disponible l) (Fin 0)"
    using Cons.prems(1) by simp
  then have rest': "\<forall>l \<in> set cola. cantidad_disponible l \<noteq> NInf" by auto
  have f: "flt eps9 (resto_tras (fsub r (cantidad_disponible l)) cola)"
    using Cons.prems(2) by (simp add: resto_tras_def)
  have "\<exists>a. cantidad_disponible l = Fin a \<and> 0 < a"
  proof (cases "cantidad_disponible l")
    case (Fin a)
    with Cons.prems(1) show ?thesis by simp
  next
    case PInf
    then have "fsub r (cantidad_disponible l) = NInf \<or> fsub r (cantidad_disponible l) = NaN"
      by (cases r) (simp_all add: fsub_def)
    from resto_tras_malo[OF this rest'] f show ?thesis by (auto simp: eps9_val)
  next
    case NInf
    with Cons.prems(1) show ?thesis by simp
  next
    case NaN
    then have "fsub r (cantidad_disponible l) = NInf \<or> fsub r (cantidad_disponible l) = NaN"
      by (cases r) (simp_all add: fsub_def)
    from resto_tras_malo[OF this rest'] f show ?thesis by (auto simp: eps9_val)
  qed
  with Cons.IH[OF rest f] show ?case by simp
qed

lemma consumir_fifo_exacto:
  assumes q: "cantidad_disponible l = Fin a" and a: "0 < a"
  shows "consumir_fifo (Fin a) (l # resto) c i =
     (Fin 0, resto, fadd c (fmul (Fin a) (coste_unit l)),
      i @ [(Fin a, fecha_compra l, coste_unit l)])"
proof -
  have m: "py_min (Fin a) (Fin a) = Fin a" by (simp add: py_min_def)
  have z: "fsub (Fin a) (Fin a) = Fin 0" by (simp add: fsub_def)
  show ?thesis
    using a by (subst consumir_fifo_pop) (simp_all add: m q z consumir_fifo_cero)
qed

lemma ascii_lower_btc [simp]: "ascii_lower ''btc'' = ''btc''" "ascii_lower ''BTC'' = ''btc''"
  "ascii_lower ''Btc'' = ''btc''"
  by (simp_all add: ascii_lower_def lower_char_def)

text \<open>
  An infinite lot met by an infinite sale is left holding not a number (infinity minus
  infinity), and stays in the queue: the invariant on the lots below is stated for
  purchases of finite quantities.
\<close>

lemma lote_infinito_queda_sin_numero:
  "cola_final argsort_stable ascii_lower
     \<lparr>con_fee = False,
      filas = [\<lparr>fecha = PyDate 1, tipo = ''Compra'', cripto = ''btc'',
                cantidad = PInf, valor_eur = Fin 1, fee_eur = Fin 0\<rparr>,
               \<lparr>fecha = PyDate 2, tipo = ''Venta'', cripto = ''btc'',
                cantidad = PInf, valor_eur = Fin 1, fee_eur = Fin 0\<rparr>]\<rparr> ''btc''
     = Some [\<lparr>cantidad_disponible = NaN, coste_unit = Fin 0, fecha_compra = PyDate 1\<rparr>]"
  by (simp add: cola_final_def fifo_final_def fifo_frame_def sort_values_def claves_def
      argsort_stable_def fecha_a_date_def to_date_def estado_inicial_def fifo_fila_def
      cripto_de_def asegurar_cola_def fee_de_def consumir_fifo.simps(2) eps9_val f64_eval)

section \<open>Properties of \<open>calcular_fifo\<close>\<close>

text \<open>
  C7. A row whose quantity is at most 0, or whose asset is the empty string, is skipped
  without an exception: the state after it is the state before it, so no lot is
  appended, no sale is recorded and every queue is as it was; the loop over the rows
  gives the same result with the row as without it.
\<close>

theorem fila_malformada_descartada:
  "lower_ok lower \<Longrightarrow> fle (cantidad f) (Fin 0) \<or> cripto f = [] \<Longrightarrow>
     fifo_fila lower cf st f = Inr st
     \<and> iterrows_loop lower cf (pre @ f # post) st0 = iterrows_loop lower cf (pre @ post) st0"
proof -
  assume "lower_ok lower" and "fle (cantidad f) (Fin 0) \<or> cripto f = []"
  then have skip: "\<And>s. fifo_fila lower cf s f = Inr s"
    using cripto_de_vacio by (auto simp: fifo_fila_skip)
  then show ?thesis
    by (simp add: iterrows_loop_append split: sum.splits)
qed

theorem fila_malformada_descartada_witness:
  "lower_ok ascii_lower
   \<and> fle (cantidad \<lparr>fecha = PyDate 2, tipo = ''Venta'', cripto = ''btc'', cantidad = Fin (- 1),
             valor_eur = Fin 50, fee_eur = Fin 0\<rparr>) (Fin 0)
   \<and> fifo_fila ascii_lower True
        \<lparr>colas = [''btc'' \<mapsto> [\<lparr>cantidad_disponible = Fin 2, coste_unit = Fin 100,
                                fecha_compra = PyDate 1\<rparr>]],
         ventas = []\<rparr>
        \<lparr>fecha = PyDate 2, tipo = ''Venta'', cripto = ''btc'', cantidad = Fin (- 1),
         valor_eur = Fin 50, fee_eur = Fin 0\<rparr>
      = Inr \<lparr>colas = [''btc'' \<mapsto> [\<lparr>cantidad_disponible = Fin 2, coste_unit = Fin 100,
                                    fecha_compra = PyDate 1\<rparr>]],
             ventas = []\<rparr>"
  using lower_ok_ascii fila_malformada_descartada [of ascii_lower
      "\<lparr>fecha = PyDate 2, tipo = ''Venta'', cripto = ''btc'', cantidad = Fin (- 1),
        valor_eur = Fin 50, fee_eur = Fin 0\<rparr>" True
      "\<lparr>colas = [''btc'' \<mapsto> [\<lparr>cantidad_disponible = Fin 2, coste_unit = Fin 100,
                               fecha_compra = PyDate 1\<rparr>]],
        ventas = []\<rparr>" "[]" "[]" estado_inicial]
  by simp

text \<open>
  C6, as the code has it. When every purchase that is not skipped has a finite quantity
  above \<open>1e-9\<close>, every lot of every queue holds more than \<open>1e-9\<close> after the rows are
  processed from the initial state: a lot left with at most \<open>1e-9\<close> by a sale is popped
  at once. A sale or donation of exactly the quantity of the head lot, a finite quantity
  above 0, removes that lot, and the queue is one lot shorter. A purchase of a quantity
  of at most \<open>1e-9\<close> is appended as it is, which the last theorem of this block shows on
  an input.
\<close>

theorem lotes_sobre_eps_tras_procesar:
  "((\<forall>f \<in> set fs. tipo f = ''Compra'' \<and> \<not> fle (cantidad f) (Fin 0) \<longrightarrow>
        flt eps9 (cantidad f) \<and> finito (cantidad f)) \<longrightarrow>
      (\<exists>st. iterrows_loop lower cf fs estado_inicial = Inr st \<and> lotes_sobre eps9 st))
   \<and> (lower_ok lower \<and> colas st0 (cripto_de lower f0) = Some (l # resto)
        \<and> (tipo f0 = ''Venta'' \<or> tipo f0 = ''Donacion'')
        \<and> cripto f0 \<noteq> [] \<and> flt (Fin 0) (cantidad f0) \<and> finito (cantidad f0)
        \<and> cantidad f0 = cantidad_disponible l \<longrightarrow>
      (\<exists>st1. fifo_fila lower cf st0 f0 = Inr st1 \<and> colas st1 (cripto_de lower f0) = Some resto
             \<and> length resto + 1 = length (l # resto)))"
proof (intro conjI impI)
  assume h: "\<forall>f \<in> set fs. tipo f = ''Compra'' \<and> \<not> fle (cantidad f) (Fin 0) \<longrightarrow>
        flt eps9 (cantidad f) \<and> finito (cantidad f)"
  obtain st where st: "iterrows_loop lower cf fs estado_inicial = Inr st"
    using iterrows_loop_total by blast
  have e: "fle eps9 eps9" by (simp add: eps9_val)
  have "lotes_sobre eps9 st"
    using iterrows_loop_sobre[OF e lotes_inicial h st] by simp
  with st show "\<exists>st. iterrows_loop lower cf fs estado_inicial = Inr st \<and> lotes_sobre eps9 st"
    by blast
next
  assume h: "lower_ok lower \<and> colas st0 (cripto_de lower f0) = Some (l # resto)
        \<and> (tipo f0 = ''Venta'' \<or> tipo f0 = ''Donacion'')
        \<and> cripto f0 \<noteq> [] \<and> flt (Fin 0) (cantidad f0) \<and> finito (cantidad f0)
        \<and> cantidad f0 = cantidad_disponible l"
  then have q: "cola_de st0 (cripto_de lower f0) = l # resto"
    and t: "tipo f0 = ''Venta'' \<or> tipo f0 = ''Donacion''"
    and eq: "cantidad f0 = cantidad_disponible l"
    and c1: "cripto_de lower f0 \<noteq> []"
    by (simp_all add: cola_de_def cripto_de_no_vacio)
  from h have "flt (Fin 0) (cantidad f0)" "finito (cantidad f0)" by blast+
  then obtain a where a: "cantidad f0 = Fin a" "0 < a"
    by (cases "cantidad f0") simp_all
  then have c0: "\<not> fle (cantidad f0) (Fin 0)" by simp
  have la: "cantidad_disponible l = Fin a" using eq a by simp
  have "consumir_fifo (cantidad f0) (cola_de st0 (cripto_de lower f0)) (Fin 0) [] =
      (Fin 0, resto, fadd (Fin 0) (fmul (Fin a) (coste_unit l)),
       [] @ [(Fin a, fecha_compra l, coste_unit l)])"
    unfolding q a(1) by (rule consumir_fifo_exacto[OF la a(2)])
  from fifo_fila_venta[OF c0 c1 t this]
  show "\<exists>st1. fifo_fila lower cf st0 f0 = Inr st1 \<and> colas st1 (cripto_de lower f0) = Some resto
             \<and> length resto + 1 = length (l # resto)"
    by simp
qed

theorem lotes_sobre_eps_tras_procesar_witness:
  "(\<exists>st. iterrows_loop ascii_lower False
              [\<lparr>fecha = PyDate 1, tipo = ''Compra'', cripto = ''btc'', cantidad = Fin 2,
                valor_eur = Fin 200, fee_eur = Fin 0\<rparr>,
               \<lparr>fecha = PyDate 2, tipo = ''Venta'', cripto = ''btc'', cantidad = Fin 1,
                valor_eur = Fin 150, fee_eur = Fin 0\<rparr>] estado_inicial = Inr st
            \<and> lotes_sobre eps9 st)
   \<and> (\<exists>st1. fifo_fila ascii_lower False
               \<lparr>colas = [''btc'' \<mapsto>
                  [\<lparr>cantidad_disponible = Fin 1, coste_unit = Fin 100, fecha_compra = PyDate 1\<rparr>,
                   \<lparr>cantidad_disponible = Fin 3, coste_unit = Fin 200, fecha_compra = PyDate 2\<rparr>]],
                ventas = []\<rparr>
               \<lparr>fecha = PyDate 3, tipo = ''Venta'', cripto = ''btc'', cantidad = Fin 1,
                valor_eur = Fin 150, fee_eur = Fin 0\<rparr> = Inr st1
             \<and> colas st1 ''btc'' =
                 Some [\<lparr>cantidad_disponible = Fin 3, coste_unit = Fin 200,
                        fecha_compra = PyDate 2\<rparr>])"
  using lower_ok_ascii lotes_sobre_eps_tras_procesar [of
      "[\<lparr>fecha = PyDate 1, tipo = ''Compra'', cripto = ''btc'', cantidad = Fin 2,
         valor_eur = Fin 200, fee_eur = Fin 0\<rparr>,
        \<lparr>fecha = PyDate 2, tipo = ''Venta'', cripto = ''btc'', cantidad = Fin 1,
         valor_eur = Fin 150, fee_eur = Fin 0\<rparr>]"
      ascii_lower False
      "\<lparr>colas = [''btc'' \<mapsto>
                  [\<lparr>cantidad_disponible = Fin 1, coste_unit = Fin 100, fecha_compra = PyDate 1\<rparr>,
                   \<lparr>cantidad_disponible = Fin 3, coste_unit = Fin 200, fecha_compra = PyDate 2\<rparr>]],
                ventas = []\<rparr>"
      "\<lparr>fecha = PyDate 3, tipo = ''Venta'', cripto = ''btc'', cantidad = Fin 1,
                valor_eur = Fin 150, fee_eur = Fin 0\<rparr>"
      "\<lparr>cantidad_disponible = Fin 1, coste_unit = Fin 100, fecha_compra = PyDate 1\<rparr>"
      "[\<lparr>cantidad_disponible = Fin 3, coste_unit = Fin 200, fecha_compra = PyDate 2\<rparr>]"]
  by (simp add: cripto_de_def eps9_val max_f64_def)

theorem lote_bajo_eps_contraejemplo:
  "cola_final argsort_stable ascii_lower
     \<lparr>con_fee = False,
      filas = [\<lparr>fecha = PyDate 1, tipo = ''Compra'', cripto = ''btc'',
                cantidad = Fin (1 / 4294967296), valor_eur = Fin 1, fee_eur = Fin 0\<rparr>]\<rparr> ''btc''
     = Some [\<lparr>cantidad_disponible = Fin (1 / 4294967296), coste_unit = Fin 4294967296,
              fecha_compra = PyDate 1\<rparr>]
   \<and> \<not> flt eps9 (cantidad_disponible
        \<lparr>cantidad_disponible = Fin (1 / 4294967296), coste_unit = Fin 4294967296,
         fecha_compra = PyDate 1\<rparr>)"
  by (simp add: cola_final_def fifo_final_def fifo_frame_def sort_values_def claves_def
      argsort_stable_def fecha_a_date_def to_date_def estado_inicial_def fifo_fila_def
      cripto_de_def asegurar_cola_def fee_de_def eps9_val f64_eval)

text \<open>
  C2, as the code has it. The quantity without history is what the code's own
  subtractions leave: the quantity of the row less the lots of the queue, one after the
  other, each difference rounded to binary64. After any rows processed from the initial
  state, a sale or donation of an asset (a non-empty string) for which that remainder is
  above \<open>1e-9\<close> raises nothing and appends exactly one sale: its note names the
  remainder and the asset, its acquisition cost is the cost of the lots of the queue
  alone, which are all consumed, and its gain is the net value minus that cost. The
  last theorem of this block is an input on which the quantity sold exceeds the total
  of the queue, the exact total and the total added in binary64 alike, by more than
  \<open>1e-9\<close>, and the sale has no note: the remainder is rounded to 0.
\<close>

theorem venta_sin_historico:
  assumes pre: "iterrows_loop lower cf pre estado_inicial = Inr st"
    and tipo: "tipo f = ''Venta'' \<or> tipo f = ''Donacion''"
    and cripto: "lower_ok lower" "cripto f \<noteq> []"
    and falta: "flt eps9 (resto_tras (cantidad f) (cola_de st (cripto_de lower f)))"
  shows "iterrows_loop lower cf (pre @ [f]) estado_inicial =
     Inr \<lparr>colas = (colas st)(cripto_de lower f \<mapsto> []),
          ventas = ventas st @
            [\<lparr>fecha_venta = fecha f,
              cripto_venta = cripto_de lower f,
              tipo_operacion = tipo f,
              cantidad_vendida = cantidad f,
              valor_transmision_bruto_eur = valor_eur f,
              comision_venta_eur = fee_de cf f,
              valor_transmision_neto_eur = fsub (valor_eur f) (fee_de cf f),
              coste_adquisicion_total_eur =
                coste_acum (Fin 0) (cola_de st (cripto_de lower f)),
              ganancia_perdida_eur =
                fsub (fsub (valor_eur f) (fee_de cf f))
                  (coste_acum (Fin 0) (cola_de st (cripto_de lower f))),
              nota = SinHistorico
                       (resto_tras (cantidad f) (cola_de st (cripto_de lower f)))
                       (cripto_de lower f),
              lotes_origen_info =
                join_or_na (traza_de_cola (cola_de st (cripto_de lower f)))\<rparr>]\<rparr>"
proof -
  let ?q = "cola_de st (cripto_de lower f)"
  have pos: "\<forall>l \<in> set ?q. \<exists>a. cantidad_disponible l = Fin a \<and> 0 < a"
    using falta_lotes_finitos[OF lotes_validos[OF pre] falta] .
  have c0: "\<not> fle (cantidad f) (Fin 0)"
    using resto_tras_sobre[OF pos falta] .
  have c1: "cripto_de lower f \<noteq> []"
    using cripto by (rule cripto_de_no_vacio)
  have agota: "consumir_fifo (cantidad f) ?q (Fin 0) [] =
      (resto_tras (cantidad f) ?q, [], coste_acum (Fin 0) ?q, traza_de_cola ?q)"
    using consumir_fifo_agota[OF pos falta, of "Fin 0" "[]"] by simp
  show ?thesis
    using falta
    by (simp add: iterrows_loop_append pre fifo_fila_venta[OF c0 c1 tipo agota])
qed

theorem venta_sin_historico_witness:
  "iterrows_loop ascii_lower True
     [\<lparr>fecha = PyDate 1, tipo = ''Compra'', cripto = ''BTC'', cantidad = Fin 4,
       valor_eur = Fin 390, fee_eur = Fin 10\<rparr>] estado_inicial
     = Inr \<lparr>colas = [''btc'' \<mapsto> [\<lparr>cantidad_disponible = Fin 4, coste_unit = Fin 100,
                                    fecha_compra = PyDate 1\<rparr>]],
            ventas = []\<rparr>
   \<and> flt eps9 (resto_tras (Fin 10)
        [\<lparr>cantidad_disponible = Fin 4, coste_unit = Fin 100, fecha_compra = PyDate 1\<rparr>])
   \<and> iterrows_loop ascii_lower True
     ([\<lparr>fecha = PyDate 1, tipo = ''Compra'', cripto = ''BTC'', cantidad = Fin 4,
       valor_eur = Fin 390, fee_eur = Fin 10\<rparr>] @
      [\<lparr>fecha = PyDate 2, tipo = ''Venta'', cripto = ''btc'', cantidad = Fin 10,
        valor_eur = Fin 2000, fee_eur = Fin 20\<rparr>]) estado_inicial
     = Inr \<lparr>colas = [''btc'' \<mapsto> []],
            ventas =
              [\<lparr>fecha_venta = PyDate 2, cripto_venta = ''btc'', tipo_operacion = ''Venta'',
                cantidad_vendida = Fin 10, valor_transmision_bruto_eur = Fin 2000,
                comision_venta_eur = Fin 20, valor_transmision_neto_eur = Fin 1980,
                coste_adquisicion_total_eur = Fin 400, ganancia_perdida_eur = Fin 1580,
                nota = SinHistorico (Fin 6) ''btc'',
                lotes_origen_info = Joined [(Fin 4, PyDate 1, Fin 100)]\<rparr>]\<rparr>"
proof -
  let ?a = "\<lparr>fecha = PyDate 1, tipo = ''Compra'', cripto = ''BTC'', cantidad = Fin 4,
       valor_eur = Fin 390, fee_eur = Fin 10\<rparr>"
  let ?v = "\<lparr>fecha = PyDate 2, tipo = ''Venta'', cripto = ''btc'', cantidad = Fin 10,
        valor_eur = Fin 2000, fee_eur = Fin 20\<rparr>"
  let ?st = "\<lparr>colas = [''btc'' \<mapsto> [\<lparr>cantidad_disponible = Fin 4, coste_unit = Fin 100,
                                    fecha_compra = PyDate 1\<rparr>]],
            ventas = []\<rparr>"
  have h1: "iterrows_loop ascii_lower True [?a] estado_inicial = Inr ?st"
    by (simp add: fifo_fila_def cripto_de_def asegurar_cola_def fee_de_def estado_inicial_def
        f64_eval)
  have h3: "tipo ?v = ''Venta'' \<or> tipo ?v = ''Donacion''" by simp
  have h4: "cripto ?v \<noteq> []" by simp
  have r: "resto_tras (Fin 10)
        [\<lparr>cantidad_disponible = Fin 4, coste_unit = Fin 100, fecha_compra = PyDate 1\<rparr>] = Fin 6"
    by (simp add: resto_tras_def f64_eval)
  have h5: "flt eps9 (resto_tras (cantidad ?v) (cola_de ?st (cripto_de ascii_lower ?v)))"
    by (simp add: cola_de_def cripto_de_def r eps9_val)
  show ?thesis
    using h1 venta_sin_historico [OF h1 h3 lower_ok_ascii h4 h5]
    by (simp add: r coste_acum_def traza_de_cola_def cola_de_def cripto_de_def fee_de_def
        join_or_na_def eps9_val f64_eval)
qed

theorem venta_redondeada_sin_nota:
  "calcular_fifo argsort_stable ascii_lower
     \<lparr>con_fee = False,
      filas =
        [\<lparr>fecha = PyDate 1, tipo = ''Compra'', cripto = ''btc'',
          cantidad = Fin (1 / 134217728), valor_eur = Fin 1, fee_eur = Fin 0\<rparr>,
         \<lparr>fecha = PyDate 2, tipo = ''Compra'', cripto = ''btc'',
          cantidad = Fin 67108864, valor_eur = Fin 67108864, fee_eur = Fin 0\<rparr>,
         \<lparr>fecha = PyDate 3, tipo = ''Venta'', cripto = ''btc'',
          cantidad = Fin (67108864 + 1 / 67108864), valor_eur = Fin 134217728,
          fee_eur = Fin 0\<rparr>]\<rparr>
     = Inr [\<lparr>fecha_venta = PyDate 3, cripto_venta = ''btc'', tipo_operacion = ''Venta'',
             cantidad_vendida = Fin (67108864 + 1 / 67108864),
             valor_transmision_bruto_eur = Fin 134217728,
             comision_venta_eur = Fin 0, valor_transmision_neto_eur = Fin 134217728,
             coste_adquisicion_total_eur = Fin 67108865,
             ganancia_perdida_eur = Fin 67108863,
             nota = NotaVacia,
             lotes_origen_info =
               Joined [(Fin (1 / 134217728), PyDate 1, Fin 134217728),
                       (Fin 67108864, PyDate 2, Fin 1)]\<rparr>]
   \<and> (1 / 10 ^ 9 :: real) < (67108864 + 1 / 67108864) - (1 / 134217728 + 67108864)
   \<and> flt eps9 (fsub (Fin (67108864 + 1 / 67108864))
                   (fadd (Fin (1 / 134217728)) (Fin 67108864)))"
  by (simp add: calcular_fifo_def fifo_final_def fifo_frame_def sort_values_def claves_def
      argsort_stable_def fecha_a_date_def to_date_def estado_inicial_def fifo_fila_def
      cripto_de_def asegurar_cola_def fee_de_def join_or_na_def consumir_fifo.simps(2)
      eps9_val f64_eval)

text \<open>
  C1. For a purchase of 2 units at the unit cost 100, a later purchase of 3 units at the
  unit cost 200 and a still later sale or donation of 4 units, all of one asset,
  \<open>calcular_fifo\<close> returns one sale: its acquisition cost is 2 * 100 + 2 * 200 = 600 and
  its trace lists 2 units of the first lot and then 2 units of the second. The first lot
  is consumed whole, and the queue is left with the second lot holding 1 unit.

  The order holds of every queue that the rows build. A purchase appends its lot at the
  end of the queue of its asset. The inner loop, on the queue of an asset after any rows
  processed from the initial state, takes from a prefix of the queue, lot by lot from
  the head: the entries it adds to the trace are the lots of that prefix, in their
  order, and the queue it leaves is the rest of the queue, behind the last lot of the
  prefix when that lot is not used up.
\<close>

theorem fifo_orden_de_consumo:
  assumes filas: "filas df = [a1, a2, d]"
    and a1: "tipo a1 = ''Compra''" "cantidad a1 = Fin 2"
      "fdiv (fadd (valor_eur a1) (fee_de (con_fee df) a1)) (cantidad a1) = Fin 100"
    and a2: "tipo a2 = ''Compra''" "cantidad a2 = Fin 3"
      "fdiv (fadd (valor_eur a2) (fee_de (con_fee df) a2)) (cantidad a2) = Fin 200"
    and d: "tipo d = ''Venta'' \<or> tipo d = ''Donacion''" "cantidad d = Fin 4"
    and c: "lower (cripto a1) = c" "lower (cripto a2) = c" "lower (cripto d) = c" "c \<noteq> []"
    and fechas: "ordinal (fecha a1) < ordinal (fecha a2)" "ordinal (fecha a2) < ordinal (fecha d)"
    and ok: "argsort_ok argsort [ordinal (fecha a1), ordinal (fecha a2), ordinal (fecha d)]"
  shows "calcular_fifo argsort lower df =
       Inr [\<lparr>fecha_venta = to_date (fecha d),
             cripto_venta = c,
             tipo_operacion = tipo d,
             cantidad_vendida = Fin 4,
             valor_transmision_bruto_eur = valor_eur d,
             comision_venta_eur = fee_de (con_fee df) d,
             valor_transmision_neto_eur = fsub (valor_eur d) (fee_de (con_fee df) d),
             coste_adquisicion_total_eur = Fin 600,
             ganancia_perdida_eur =
               fsub (fsub (valor_eur d) (fee_de (con_fee df) d)) (Fin 600),
             nota = NotaVacia,
             lotes_origen_info =
               Joined [(Fin 2, to_date (fecha a1), Fin 100),
                       (Fin 2, to_date (fecha a2), Fin 200)]\<rparr>]
     \<and> cola_final argsort lower df c =
       Some [\<lparr>cantidad_disponible = Fin 1, coste_unit = Fin 200,
              fecha_compra = to_date (fecha a2)\<rparr>]
     \<and> (tipo f = ''Compra'' \<and> \<not> fle (cantidad f) (Fin 0) \<and> cripto_de lower f \<noteq> [] \<longrightarrow>
          (\<exists>st'. fifo_fila lower cf st f = Inr st'
             \<and> (\<exists>l. cola_de st' (cripto_de lower f) = cola_de st (cripto_de lower f) @ [l]
                   \<and> cantidad_disponible l = cantidad f \<and> fecha_compra l = fecha f)))
     \<and> (iterrows_loop lower cf pre estado_inicial = Inr st1
          \<and> consumir_fifo r (cola_de st1 c1) c0 i = (r', q', c', i') \<longrightarrow>
          (\<exists>n ts. n \<le> length (cola_de st1 c1) \<and> i' = i @ ts
             \<and> map origen ts = map origen_lote (take n (cola_de st1 c1))
             \<and> (q' = drop n (cola_de st1 c1)
                  \<or> (0 < n \<and> (\<exists>z. q' = (cola_de st1 c1 ! (n - 1))\<lparr>cantidad_disponible := z\<rparr>
                                       # drop n (cola_de st1 c1))))))"
proof (intro conjI impI)
  let ?cf = "con_fee df"
  let ?b1 = "a1\<lparr>fecha := to_date (fecha a1)\<rparr>"
  let ?b2 = "a2\<lparr>fecha := to_date (fecha a2)\<rparr>"
  let ?e = "d\<lparr>fecha := to_date (fecha d)\<rparr>"
  let ?l1 = "\<lparr>cantidad_disponible = Fin 2, coste_unit = Fin 100, fecha_compra = to_date (fecha a1)\<rparr>"
  let ?l2 = "\<lparr>cantidad_disponible = Fin 3, coste_unit = Fin 200, fecha_compra = to_date (fecha a2)\<rparr>"
  let ?rec = "\<lparr>fecha_venta = to_date (fecha d),
             cripto_venta = c,
             tipo_operacion = tipo d,
             cantidad_vendida = Fin 4,
             valor_transmision_bruto_eur = valor_eur d,
             comision_venta_eur = fee_de (con_fee df) d,
             valor_transmision_neto_eur = fsub (valor_eur d) (fee_de (con_fee df) d),
             coste_adquisicion_total_eur = Fin 600,
             ganancia_perdida_eur =
               fsub (fsub (valor_eur d) (fee_de (con_fee df) d)) (Fin 600),
             nota = NotaVacia,
             lotes_origen_info =
               Joined [(Fin 2, to_date (fecha a1), Fin 100),
                       (Fin 2, to_date (fecha a2), Fin 200)]\<rparr>"
  have fd: "filas (fecha_a_date df) = [?b1, ?b2, ?e]"
    by (simp add: fecha_a_date_def filas)
  have cl: "claves (filas df) = [ordinal (fecha a1), ordinal (fecha a2), ordinal (fecha d)]"
    by (simp add: filas claves_def)
  have sv: "sort_values argsort (fecha_a_date df) = fecha_a_date df"
    by (rule sort_values_identidad) (use fechas ok in \<open>simp_all add: cl\<close>)
  have cs: "cripto_de lower a1 = c" "cripto_de lower a2 = c" "cripto_de lower d = c"
    using c by (simp_all add: cripto_de_def)
  have s1: "fifo_fila lower ?cf estado_inicial ?b1 = Inr \<lparr>colas = [c \<mapsto> [?l1]], ventas = []\<rparr>"
    using a1 c(4) by (simp add: fifo_fila_compra cs cola_de_def estado_inicial_def)
  have s2: "fifo_fila lower ?cf \<lparr>colas = [c \<mapsto> [?l1]], ventas = []\<rparr> ?b2 =
      Inr \<lparr>colas = [c \<mapsto> [?l1, ?l2]], ventas = []\<rparr>"
    using a2 c(4) by (simp add: fifo_fila_compra cs cola_de_def)
  have k1: "consumir_fifo (Fin 4) [?l1, ?l2] (Fin 0) [] =
      consumir_fifo (Fin 2) [?l2] (Fin 200) [(Fin 2, to_date (fecha a1), Fin 100)]"
    by (subst consumir_fifo_pop) (simp_all add: eps9_val f64_eval)
  have k2: "consumir_fifo (Fin 2) [?l2] (Fin 200) [(Fin 2, to_date (fecha a1), Fin 100)] =
      (Fin 0, [?l2\<lparr>cantidad_disponible := Fin 1\<rparr>], Fin 600,
       [(Fin 2, to_date (fecha a1), Fin 100), (Fin 2, to_date (fecha a2), Fin 200)])"
    by (subst consumir_fifo_keep_finito[where a = 3]) (simp_all add: eps9_val f64_eval)
  have cons: "consumir_fifo (cantidad ?e)
      (cola_de \<lparr>colas = [c \<mapsto> [?l1, ?l2]], ventas = []\<rparr> (cripto_de lower ?e)) (Fin 0) [] =
      (Fin 0, [?l2\<lparr>cantidad_disponible := Fin 1\<rparr>], Fin 600,
       [(Fin 2, to_date (fecha a1), Fin 100), (Fin 2, to_date (fecha a2), Fin 200)])"
    using d(2) by (simp add: cs cola_de_def k1 k2)
  have v: "\<not> fle (cantidad ?e) (Fin 0)" "cripto_de lower ?e \<noteq> []"
    "tipo ?e = ''Venta'' \<or> tipo ?e = ''Donacion''"
    using d c(4) by (simp_all add: cs)
  have s3: "fifo_fila lower ?cf \<lparr>colas = [c \<mapsto> [?l1, ?l2]], ventas = []\<rparr> ?e =
      Inr \<lparr>colas = [c \<mapsto> [?l2\<lparr>cantidad_disponible := Fin 1\<rparr>]], ventas = [?rec]\<rparr>"
    unfolding fifo_fila_venta[OF v cons]
    using d(2) by (simp add: cs join_or_na_def eps9_val)
  have loop: "fifo_final argsort lower df =
      Inr \<lparr>colas = [c \<mapsto> [?l2\<lparr>cantidad_disponible := Fin 1\<rparr>]], ventas = [?rec]\<rparr>"
    by (simp add: fifo_final_def fifo_frame_def sv fd s1 s2 s3)
  show "calcular_fifo argsort lower df = Inr [?rec]"
    by (simp add: calcular_fifo_def loop)
  show "cola_final argsort lower df c =
       Some [\<lparr>cantidad_disponible = Fin 1, coste_unit = Fin 200,
              fecha_compra = to_date (fecha a2)\<rparr>]"
    by (simp add: cola_final_def loop)
next
  assume h: "tipo f = ''Compra'' \<and> \<not> fle (cantidad f) (Fin 0) \<and> cripto_de lower f \<noteq> []"
  then have v: "\<not> fle (cantidad f) (Fin 0)" "cripto_de lower f \<noteq> []" "tipo f = ''Compra''"
    by simp_all
  show "\<exists>st'. fifo_fila lower cf st f = Inr st'
             \<and> (\<exists>l. cola_de st' (cripto_de lower f) = cola_de st (cripto_de lower f) @ [l]
                   \<and> cantidad_disponible l = cantidad f \<and> fecha_compra l = fecha f)"
    unfolding fifo_fila_compra[OF v] by (simp add: cola_de_def)
next
  assume h: "iterrows_loop lower cf pre estado_inicial = Inr st1
          \<and> consumir_fifo r (cola_de st1 c1) c0 i = (r', q', c', i')"
  then have pre: "iterrows_loop lower cf pre estado_inicial = Inr st1"
    and res: "consumir_fifo r (cola_de st1 c1) c0 i = (r', q', c', i')"
    by simp_all
  have "\<forall>l \<in> set (cola_de st1 c1). cantidad_disponible l \<noteq> NInf"
    using lotes_validos[OF pre, of c1] by auto
  from consumir_fifo_prefijo[OF this res]
  show "\<exists>n ts. n \<le> length (cola_de st1 c1) \<and> i' = i @ ts
             \<and> map origen ts = map origen_lote (take n (cola_de st1 c1))
             \<and> (q' = drop n (cola_de st1 c1)
                  \<or> (0 < n \<and> (\<exists>z. q' = (cola_de st1 c1 ! (n - 1))\<lparr>cantidad_disponible := z\<rparr>
                                       # drop n (cola_de st1 c1))))" .
qed

theorem fifo_orden_de_consumo_witness:
  "argsort_ok argsort_stable [1, 2, 3]
   \<and> calcular_fifo argsort_stable ascii_lower
       \<lparr>con_fee = True,
        filas =
          [\<lparr>fecha = PyDate 1, tipo = ''Compra'', cripto = ''BTC'', cantidad = Fin 2,
            valor_eur = Fin 190, fee_eur = Fin 10\<rparr>,
           \<lparr>fecha = PyDatetime 2 3600, tipo = ''Compra'', cripto = ''btc'', cantidad = Fin 3,
            valor_eur = Fin 600, fee_eur = Fin 0\<rparr>,
           \<lparr>fecha = PyDate 3, tipo = ''Venta'', cripto = ''Btc'', cantidad = Fin 4,
            valor_eur = Fin 1000, fee_eur = Fin 5\<rparr>]\<rparr>
     = Inr [\<lparr>fecha_venta = PyDate 3, cripto_venta = ''btc'', tipo_operacion = ''Venta'',
             cantidad_vendida = Fin 4, valor_transmision_bruto_eur = Fin 1000,
             comision_venta_eur = Fin 5, valor_transmision_neto_eur = Fin 995,
             coste_adquisicion_total_eur = Fin 600, ganancia_perdida_eur = Fin 395,
             nota = NotaVacia,
             lotes_origen_info =
               Joined [(Fin 2, PyDate 1, Fin 100), (Fin 2, PyDate 2, Fin 200)]\<rparr>]
   \<and> (\<exists>st'. fifo_fila ascii_lower True
               \<lparr>colas = [''btc'' \<mapsto>
                  [\<lparr>cantidad_disponible = Fin 2, coste_unit = Fin 100, fecha_compra = PyDate 1\<rparr>]],
                ventas = []\<rparr>
               \<lparr>fecha = PyDate 2, tipo = ''Compra'', cripto = ''btc'', cantidad = Fin 3,
                valor_eur = Fin 600, fee_eur = Fin 0\<rparr> = Inr st'
          \<and> (\<exists>l. cola_de st' ''btc'' =
                   [\<lparr>cantidad_disponible = Fin 2, coste_unit = Fin 100,
                     fecha_compra = PyDate 1\<rparr>] @ [l]
                \<and> cantidad_disponible l = Fin 3 \<and> fecha_compra l = PyDate 2))
   \<and> iterrows_loop ascii_lower True
        [\<lparr>fecha = PyDate 1, tipo = ''Compra'', cripto = ''BTC'', cantidad = Fin 2,
          valor_eur = Fin 190, fee_eur = Fin 10\<rparr>,
         \<lparr>fecha = PyDate 2, tipo = ''Compra'', cripto = ''btc'', cantidad = Fin 3,
          valor_eur = Fin 600, fee_eur = Fin 0\<rparr>] estado_inicial
     = Inr \<lparr>colas = [''btc'' \<mapsto>
              [\<lparr>cantidad_disponible = Fin 2, coste_unit = Fin 100, fecha_compra = PyDate 1\<rparr>,
               \<lparr>cantidad_disponible = Fin 3, coste_unit = Fin 200, fecha_compra = PyDate 2\<rparr>]],
            ventas = []\<rparr>
   \<and> consumir_fifo (Fin 4)
        [\<lparr>cantidad_disponible = Fin 2, coste_unit = Fin 100, fecha_compra = PyDate 1\<rparr>,
         \<lparr>cantidad_disponible = Fin 3, coste_unit = Fin 200, fecha_compra = PyDate 2\<rparr>]
        (Fin 0) []
     = (Fin 0,
        [\<lparr>cantidad_disponible = Fin 1, coste_unit = Fin 200, fecha_compra = PyDate 2\<rparr>],
        Fin 600,
        [(Fin 2, PyDate 1, Fin 100), (Fin 2, PyDate 2, Fin 200)])
   \<and> (\<exists>n ts. n \<le> 2
          \<and> [(Fin 2, PyDate 1, Fin 100), (Fin 2, PyDate 2, Fin 200)] = ts
          \<and> map origen ts = map origen_lote (take n
               [\<lparr>cantidad_disponible = Fin 2, coste_unit = Fin 100, fecha_compra = PyDate 1\<rparr>,
                \<lparr>cantidad_disponible = Fin 3, coste_unit = Fin 200, fecha_compra = PyDate 2\<rparr>]))"
proof -
  let ?a1 = "\<lparr>fecha = PyDate 1, tipo = ''Compra'', cripto = ''BTC'', cantidad = Fin 2,
            valor_eur = Fin 190, fee_eur = Fin 10\<rparr>"
  let ?a2 = "\<lparr>fecha = PyDatetime 2 3600, tipo = ''Compra'', cripto = ''btc'', cantidad = Fin 3,
            valor_eur = Fin 600, fee_eur = Fin 0\<rparr>"
  let ?d = "\<lparr>fecha = PyDate 3, tipo = ''Venta'', cripto = ''Btc'', cantidad = Fin 4,
            valor_eur = Fin 1000, fee_eur = Fin 5\<rparr>"
  let ?df = "\<lparr>con_fee = True, filas = [?a1, ?a2, ?d]\<rparr>"
  let ?l1 = "\<lparr>cantidad_disponible = Fin 2, coste_unit = Fin 100, fecha_compra = PyDate 1\<rparr>"
  let ?l2 = "\<lparr>cantidad_disponible = Fin 3, coste_unit = Fin 200, fecha_compra = PyDate 2\<rparr>"
  let ?f = "\<lparr>fecha = PyDate 2, tipo = ''Compra'', cripto = ''btc'', cantidad = Fin 3,
                valor_eur = Fin 600, fee_eur = Fin 0\<rparr>"
  let ?st = "\<lparr>colas = [''btc'' \<mapsto> [?l1]], ventas = []\<rparr>"
  let ?pre = "[?a1, ?f]"
  let ?st1 = "\<lparr>colas = [''btc'' \<mapsto> [?l1, ?l2]], ventas = []\<rparr>"
  let ?q' = "[\<lparr>cantidad_disponible = Fin 1, coste_unit = Fin 200, fecha_compra = PyDate 2\<rparr>]"
  let ?i' = "[(Fin 2, PyDate 1, Fin 100), (Fin 2, PyDate 2, Fin 200)]"
  have ok: "argsort_ok argsort_stable [1, 2, 3]"
    by (simp add: argsort_ok_def argsort_stable_def)
  have u1: "fdiv (fadd (valor_eur ?a1) (fee_de (con_fee ?df) ?a1)) (cantidad ?a1) = Fin 100"
    by (simp add: fee_de_def f64_eval)
  have u2: "fdiv (fadd (valor_eur ?a2) (fee_de (con_fee ?df) ?a2)) (cantidad ?a2) = Fin 200"
    by (simp add: fee_de_def f64_eval)
  have hp: "iterrows_loop ascii_lower True ?pre estado_inicial = Inr ?st1"
    by (simp add: fifo_fila_def cripto_de_def asegurar_cola_def fee_de_def estado_inicial_def
        f64_eval)
  have k: "consumir_fifo (Fin 4) [?l1, ?l2] (Fin 0) [] = (Fin 0, ?q', Fin 600, ?i')"
    by (simp add: consumir_fifo.simps(2) eps9_val f64_eval)
  have q: "cola_de ?st1 ''btc'' = [?l1, ?l2]"
    by (simp add: cola_de_def)
  have g: "fsub (Fin 1000) (Fin 5) = Fin 995" "fsub (Fin 995) (Fin 600) = Fin 395"
    by (simp_all add: f64_eval)
  have t: "calcular_fifo argsort_stable ascii_lower ?df =
       Inr [\<lparr>fecha_venta = to_date (fecha ?d),
             cripto_venta = ''btc'',
             tipo_operacion = tipo ?d,
             cantidad_vendida = Fin 4,
             valor_transmision_bruto_eur = valor_eur ?d,
             comision_venta_eur = fee_de (con_fee ?df) ?d,
             valor_transmision_neto_eur = fsub (valor_eur ?d) (fee_de (con_fee ?df) ?d),
             coste_adquisicion_total_eur = Fin 600,
             ganancia_perdida_eur =
               fsub (fsub (valor_eur ?d) (fee_de (con_fee ?df) ?d)) (Fin 600),
             nota = NotaVacia,
             lotes_origen_info =
               Joined [(Fin 2, to_date (fecha ?a1), Fin 100),
                       (Fin 2, to_date (fecha ?a2), Fin 200)]\<rparr>]
     \<and> cola_final argsort_stable ascii_lower ?df ''btc'' =
       Some [\<lparr>cantidad_disponible = Fin 1, coste_unit = Fin 200,
              fecha_compra = to_date (fecha ?a2)\<rparr>]
     \<and> (tipo ?f = ''Compra'' \<and> \<not> fle (cantidad ?f) (Fin 0) \<and> cripto_de ascii_lower ?f \<noteq> [] \<longrightarrow>
          (\<exists>st'. fifo_fila ascii_lower True ?st ?f = Inr st'
             \<and> (\<exists>l. cola_de st' (cripto_de ascii_lower ?f) =
                     cola_de ?st (cripto_de ascii_lower ?f) @ [l]
                   \<and> cantidad_disponible l = cantidad ?f \<and> fecha_compra l = fecha ?f)))
     \<and> (iterrows_loop ascii_lower True ?pre estado_inicial = Inr ?st1
          \<and> consumir_fifo (Fin 4) (cola_de ?st1 ''btc'') (Fin 0) [] =
              (Fin 0, ?q', Fin 600, ?i') \<longrightarrow>
          (\<exists>n ts. n \<le> length (cola_de ?st1 ''btc'') \<and> ?i' = [] @ ts
             \<and> map origen ts = map origen_lote (take n (cola_de ?st1 ''btc''))
             \<and> (?q' = drop n (cola_de ?st1 ''btc'')
                  \<or> (0 < n \<and> (\<exists>z. ?q' = (cola_de ?st1 ''btc'' ! (n - 1))\<lparr>cantidad_disponible := z\<rparr>
                                       # drop n (cola_de ?st1 ''btc''))))))"
    by (rule fifo_orden_de_consumo [where df = ?df and ?a1.0 = ?a1 and ?a2.0 = ?a2 and d = ?d
        and c = "''btc''" and lower = ascii_lower and argsort = argsort_stable])
       (use u1 u2 ok in simp_all)
  from t have p1: "calcular_fifo argsort_stable ascii_lower ?df =
       Inr [\<lparr>fecha_venta = PyDate 3, cripto_venta = ''btc'', tipo_operacion = ''Venta'',
             cantidad_vendida = Fin 4, valor_transmision_bruto_eur = Fin 1000,
             comision_venta_eur = Fin 5, valor_transmision_neto_eur = Fin 995,
             coste_adquisicion_total_eur = Fin 600, ganancia_perdida_eur = Fin 395,
             nota = NotaVacia,
             lotes_origen_info =
               Joined [(Fin 2, PyDate 1, Fin 100), (Fin 2, PyDate 2, Fin 200)]\<rparr>]"
    by (simp add: fee_de_def to_date_def g)
  from t have p3: "\<exists>st'. fifo_fila ascii_lower True ?st ?f = Inr st'
          \<and> (\<exists>l. cola_de st' ''btc'' = [?l1] @ [l]
                \<and> cantidad_disponible l = Fin 3 \<and> fecha_compra l = PyDate 2)"
    by (simp add: cripto_de_def cola_de_def)
  have k': "consumir_fifo (Fin 4) (cola_de ?st1 ''btc'') (Fin 0) [] = (Fin 0, ?q', Fin 600, ?i')"
    unfolding q by (rule k)
  from t hp k' obtain n ts where "n \<le> length (cola_de ?st1 ''btc'')" "?i' = [] @ ts"
      "map origen ts = map origen_lote (take n (cola_de ?st1 ''btc''))"
    by blast
  then have p4: "\<exists>n ts. n \<le> 2 \<and> ?i' = ts
          \<and> map origen ts = map origen_lote (take n [?l1, ?l2])"
    unfolding q by (intro exI[of _ n] exI[of _ ts]) simp
  show ?thesis
    by (intro conjI) (rule ok p1 p3 hp k p4)+
qed



section \<open>Properties of \<open>calcular_fifo\<close> on the store\<close>

lemma calcular_fifo_store_eq:
  assumes a: "a < length h"
  shows "calcular_fifo_store argsort lower a h =
     (calcular_fifo argsort lower (h ! a),
      h @ [fecha_a_date (h ! a), sort_values argsort (fecha_a_date (h ! a))])"
  using a
  by (simp add: calcular_fifo_store_def df_copy_def df_set_fecha_def df_sort_values_def
      calcular_fifo_def fifo_final_def nth_append Let_def)

text \<open>
  C9. A run of \<open>calcular_fifo\<close> works on a copy of its frame and on queues of its own. So
  a second run on the same frame, in the store that the first run leaves, returns the
  same sales as the first; the result is a function of the frame alone; and every frame
  that was in the store before a run, the input among them, is unchanged after it.
\<close>

theorem calcular_fifo_determinista:
  assumes a: "df_operaciones < length h"
  shows "(case calcular_fifo_store argsort lower df_operaciones h of
           (r1, h1) \<Rightarrow>
             (case calcular_fifo_store argsort lower df_operaciones h1 of
                (r2, h2) \<Rightarrow>
                  r2 = r1 \<and> r1 = calcular_fifo argsort lower (h ! df_operaciones)
                  \<and> take (length h) h1 = h \<and> take (length h) h2 = h))"
proof -
  let ?x = "[fecha_a_date (h ! df_operaciones),
             sort_values argsort (fecha_a_date (h ! df_operaciones))]"
  have a1: "df_operaciones < length (h @ ?x)" using a by simp
  have same: "(h @ ?x) ! df_operaciones = h ! df_operaciones"
    using a by (simp add: nth_append)
  show ?thesis
    unfolding calcular_fifo_store_eq[OF a] prod.case calcular_fifo_store_eq[OF a1] same
    by simp
qed

theorem calcular_fifo_determinista_witness:
  "(0 :: nat) < length
      [\<lparr>con_fee = False,
        filas =
          [\<lparr>fecha = PyDatetime 2 60, tipo = ''Venta'', cripto = ''btc'', cantidad = Fin 1,
            valor_eur = Fin 150, fee_eur = Fin 0\<rparr>,
           \<lparr>fecha = PyDate 1, tipo = ''Compra'', cripto = ''BTC'', cantidad = Fin 2,
            valor_eur = Fin 200, fee_eur = Fin 0\<rparr>]\<rparr>]
   \<and> fst (calcular_fifo_store argsort_stable ascii_lower 0
      [\<lparr>con_fee = False,
        filas =
          [\<lparr>fecha = PyDatetime 2 60, tipo = ''Venta'', cripto = ''btc'', cantidad = Fin 1,
            valor_eur = Fin 150, fee_eur = Fin 0\<rparr>,
           \<lparr>fecha = PyDate 1, tipo = ''Compra'', cripto = ''BTC'', cantidad = Fin 2,
            valor_eur = Fin 200, fee_eur = Fin 0\<rparr>]\<rparr>])
     = Inr [\<lparr>fecha_venta = PyDate 2, cripto_venta = ''btc'', tipo_operacion = ''Venta'',
             cantidad_vendida = Fin 1, valor_transmision_bruto_eur = Fin 150,
             comision_venta_eur = Fin 0, valor_transmision_neto_eur = Fin 150,
             coste_adquisicion_total_eur = Fin 100, ganancia_perdida_eur = Fin 50,
             nota = NotaVacia, lotes_origen_info = Joined [(Fin 1, PyDate 1, Fin 100)]\<rparr>]
   \<and> fst (calcular_fifo_store argsort_stable ascii_lower 0
          (snd (calcular_fifo_store argsort_stable ascii_lower 0
      [\<lparr>con_fee = False,
        filas =
          [\<lparr>fecha = PyDatetime 2 60, tipo = ''Venta'', cripto = ''btc'', cantidad = Fin 1,
            valor_eur = Fin 150, fee_eur = Fin 0\<rparr>,
           \<lparr>fecha = PyDate 1, tipo = ''Compra'', cripto = ''BTC'', cantidad = Fin 2,
            valor_eur = Fin 200, fee_eur = Fin 0\<rparr>]\<rparr>])))
     = Inr [\<lparr>fecha_venta = PyDate 2, cripto_venta = ''btc'', tipo_operacion = ''Venta'',
             cantidad_vendida = Fin 1, valor_transmision_bruto_eur = Fin 150,
             comision_venta_eur = Fin 0, valor_transmision_neto_eur = Fin 150,
             coste_adquisicion_total_eur = Fin 100, ganancia_perdida_eur = Fin 50,
             nota = NotaVacia, lotes_origen_info = Joined [(Fin 1, PyDate 1, Fin 100)]\<rparr>]"
proof -
  let ?h = "[\<lparr>con_fee = False,
        filas =
          [\<lparr>fecha = PyDatetime 2 60, tipo = ''Venta'', cripto = ''btc'', cantidad = Fin 1,
            valor_eur = Fin 150, fee_eur = Fin 0\<rparr>,
           \<lparr>fecha = PyDate 1, tipo = ''Compra'', cripto = ''BTC'', cantidad = Fin 2,
            valor_eur = Fin 200, fee_eur = Fin 0\<rparr>]\<rparr>]"
  have a: "(0 :: nat) < length ?h" by simp
  have val: "calcular_fifo argsort_stable ascii_lower (?h ! 0)
     = Inr [\<lparr>fecha_venta = PyDate 2, cripto_venta = ''btc'', tipo_operacion = ''Venta'',
             cantidad_vendida = Fin 1, valor_transmision_bruto_eur = Fin 150,
             comision_venta_eur = Fin 0, valor_transmision_neto_eur = Fin 150,
             coste_adquisicion_total_eur = Fin 100, ganancia_perdida_eur = Fin 50,
             nota = NotaVacia, lotes_origen_info = Joined [(Fin 1, PyDate 1, Fin 100)]\<rparr>]"
    by (simp add: calcular_fifo_def fifo_final_def fifo_frame_def sort_values_def claves_def
        argsort_stable_def fecha_a_date_def to_date_def estado_inicial_def fifo_fila_def
        cripto_de_def asegurar_cola_def fee_de_def join_or_na_def consumir_fifo.simps(2)
        eps9_val f64_eval)
  from calcular_fifo_determinista [OF a, of argsort_stable ascii_lower] val a show ?thesis
    by (auto split: prod.splits)
qed

section \<open>Properties of the tax functions\<close>

lemma py_min_PInf [simp]: "py_min r PInf = r"
  by (cases r) (simp_all add: py_min_def)

lemma anchos: "fsub (Fin 50000) (Fin 6000) = Fin 44000" "fsub (Fin 200000) (Fin 50000) = Fin 150000"
  by (simp_all add: f64_eval)

lemma tramos_val:
  "tramos = [(Fin 6000, rnd (19 / 100)), (Fin 44000, rnd (21 / 100)),
             (Fin 150000, rnd (23 / 100)), (PInf, rnd (26 / 100))]"
  by (simp add: tramos_def anchos)

lemma tramos_loop_escala: "tramos_loop tramos g (Fin 0) = escala_spec g"
  by (simp add: tramos_val escala_spec_def Let_def)

lemma flt_fle_0: "flt t (Fin 0) \<Longrightarrow> fle t (Fin 0)"
  by (cases t) simp_all

lemma tramos_loop_nonpos: "fle g (Fin 0) \<Longrightarrow> tramos_loop tramos g (Fin 0) = Fin 0"
  by (simp add: tramos_val)

lemma np_round_0 [simp]: "np_round (Fin 0) 2 = Fin 0"
  by (simp add: f64_eval)

lemma calcular_irpf_ganancias_eq:
  "calcular_irpf_ganancias suma df =
     \<lparr>base_imponible_eur = np_round (total_ganancias suma df) 2,
      irpf_ganancias_eur = np_round (tramos_loop tramos (total_ganancias suma df) (Fin 0)) 2\<rparr>"
  by (simp add: calcular_irpf_ganancias_def total_ganancias_def Let_def)

lemma escala_6000: "np_round (escala_spec (Fin 6000)) 2 = Fin 1140"
  by (simp add: escala_spec_def f64_eval)

lemma escala_6001: "np_round (escala_spec (Fin 6001)) 2 = rnd (114021 / 100)"
  by (simp add: escala_spec_def f64_eval)



lemma base_500: "np_round (Fin (- 500)) 2 = Fin (- 500)"
  by (simp add: f64_eval)

text \<open>
  C4. The tax on gains is the progressive scale applied to the sum of the gains, rounded
  to two decimals: the loop over \<open>tramos\<close> takes from each bracket in turn the smaller of
  what is left and the bracket's width, which adds up to 19% of the first 6000, 21% of
  the next 44000, 23% of the next 150000 and 26% of the rest, every product, sum and
  difference in binary64. A total gain of 6000 gives 1140.0 and a total gain of 6001
  gives the binary64 number that \<open>1140.21\<close> denotes.
\<close>

theorem irpf_ganancias_por_tramos:
  "irpf_ganancias_eur (calcular_irpf_ganancias suma df) =
     np_round (escala_spec (total_ganancias suma df)) 2
   \<and> (total_ganancias suma df = Fin 6000 \<longrightarrow>
        irpf_ganancias_eur (calcular_irpf_ganancias suma df) = Fin 1140)
   \<and> (total_ganancias suma df = Fin 6001 \<longrightarrow>
        irpf_ganancias_eur (calcular_irpf_ganancias suma df) = rnd (114021 / 100))"
  by (simp add: calcular_irpf_ganancias_eq tramos_loop_escala escala_6000 escala_6001)

theorem irpf_ganancias_por_tramos_witness:
  "total_ganancias suma_en_orden
     [\<lparr>fecha_venta = PyDate 1, cripto_venta = ''btc'', tipo_operacion = ''Venta'',
       cantidad_vendida = Fin 1, valor_transmision_bruto_eur = Fin 7000,
       comision_venta_eur = Fin 0, valor_transmision_neto_eur = Fin 7000,
       coste_adquisicion_total_eur = Fin 1000, ganancia_perdida_eur = Fin 6000,
       nota = NotaVacia, lotes_origen_info = NA\<rparr>,
      \<lparr>fecha_venta = PyDate 2, cripto_venta = ''eth'', tipo_operacion = ''Donacion'',
       cantidad_vendida = Fin 1, valor_transmision_bruto_eur = Fin 1,
       comision_venta_eur = Fin 0, valor_transmision_neto_eur = Fin 1,
       coste_adquisicion_total_eur = Fin 0, ganancia_perdida_eur = Fin 1,
       nota = NotaVacia, lotes_origen_info = NA\<rparr>] = Fin 6001
   \<and> irpf_ganancias_eur (calcular_irpf_ganancias suma_en_orden
     [\<lparr>fecha_venta = PyDate 1, cripto_venta = ''btc'', tipo_operacion = ''Venta'',
       cantidad_vendida = Fin 1, valor_transmision_bruto_eur = Fin 7000,
       comision_venta_eur = Fin 0, valor_transmision_neto_eur = Fin 7000,
       coste_adquisicion_total_eur = Fin 1000, ganancia_perdida_eur = Fin 6000,
       nota = NotaVacia, lotes_origen_info = NA\<rparr>,
      \<lparr>fecha_venta = PyDate 2, cripto_venta = ''eth'', tipo_operacion = ''Donacion'',
       cantidad_vendida = Fin 1, valor_transmision_bruto_eur = Fin 1,
       comision_venta_eur = Fin 0, valor_transmision_neto_eur = Fin 1,
       coste_adquisicion_total_eur = Fin 0, ganancia_perdida_eur = Fin 1,
       nota = NotaVacia, lotes_origen_info = NA\<rparr>]) = rnd (114021 / 100)"
proof -
  let ?df = "[\<lparr>fecha_venta = PyDate 1, cripto_venta = ''btc'', tipo_operacion = ''Venta'',
       cantidad_vendida = Fin 1, valor_transmision_bruto_eur = Fin 7000,
       comision_venta_eur = Fin 0, valor_transmision_neto_eur = Fin 7000,
       coste_adquisicion_total_eur = Fin 1000, ganancia_perdida_eur = Fin 6000,
       nota = NotaVacia, lotes_origen_info = NA\<rparr>,
      \<lparr>fecha_venta = PyDate 2, cripto_venta = ''eth'', tipo_operacion = ''Donacion'',
       cantidad_vendida = Fin 1, valor_transmision_bruto_eur = Fin 1,
       comision_venta_eur = Fin 0, valor_transmision_neto_eur = Fin 1,
       coste_adquisicion_total_eur = Fin 0, ganancia_perdida_eur = Fin 1,
       nota = NotaVacia, lotes_origen_info = NA\<rparr>]"
  have t: "total_ganancias suma_en_orden ?df = Fin 6001"
    by (simp add: total_ganancias_def suma_en_orden_def f64_eval)
  from irpf_ganancias_por_tramos [of suma_en_orden ?df] t show ?thesis
    by blast
qed

text \<open>
  C5. When the gains sum to a negative total, the loop over \<open>tramos\<close> stops at its first
  test and the tax is 0, while the base is the total rounded to two decimals; a total of
  -500 gives the base -500.0.
\<close>

theorem ganancia_negativa_sin_cuota:
  "flt (total_ganancias suma df) (Fin 0) \<Longrightarrow>
     calcular_irpf_ganancias suma df =
       \<lparr>base_imponible_eur = np_round (total_ganancias suma df) 2,
        irpf_ganancias_eur = Fin 0\<rparr>
     \<and> tramos_loop tramos (total_ganancias suma df) (Fin 0) = Fin 0
     \<and> (total_ganancias suma df = Fin (- 500) \<longrightarrow>
          base_imponible_eur (calcular_irpf_ganancias suma df) = Fin (- 500))"
  by (simp add: calcular_irpf_ganancias_eq tramos_loop_nonpos flt_fle_0 base_500)

theorem ganancia_negativa_sin_cuota_witness:
  "flt (total_ganancias suma_en_orden
     [\<lparr>fecha_venta = PyDate 1, cripto_venta = ''btc'', tipo_operacion = ''Venta'',
       cantidad_vendida = Fin 1, valor_transmision_bruto_eur = Fin 500,
       comision_venta_eur = Fin 0, valor_transmision_neto_eur = Fin 500,
       coste_adquisicion_total_eur = Fin 1000, ganancia_perdida_eur = Fin (- 500),
       nota = NotaVacia, lotes_origen_info = NA\<rparr>]) (Fin 0)
   \<and> calcular_irpf_ganancias suma_en_orden
     [\<lparr>fecha_venta = PyDate 1, cripto_venta = ''btc'', tipo_operacion = ''Venta'',
       cantidad_vendida = Fin 1, valor_transmision_bruto_eur = Fin 500,
       comision_venta_eur = Fin 0, valor_transmision_neto_eur = Fin 500,
       coste_adquisicion_total_eur = Fin 1000, ganancia_perdida_eur = Fin (- 500),
       nota = NotaVacia, lotes_origen_info = NA\<rparr>]
     = \<lparr>base_imponible_eur = Fin (- 500), irpf_ganancias_eur = Fin 0\<rparr>"
proof -
  let ?df = "[\<lparr>fecha_venta = PyDate 1, cripto_venta = ''btc'', tipo_operacion = ''Venta'',
       cantidad_vendida = Fin 1, valor_transmision_bruto_eur = Fin 500,
       comision_venta_eur = Fin 0, valor_transmision_neto_eur = Fin 500,
       coste_adquisicion_total_eur = Fin 1000, ganancia_perdida_eur = Fin (- 500),
       nota = NotaVacia, lotes_origen_info = NA\<rparr>]"
  have t: "total_ganancias suma_en_orden ?df = Fin (- 500)"
    by (simp add: total_ganancias_def suma_en_orden_def f64_eval)
  then have n: "flt (total_ganancias suma_en_orden ?df) (Fin 0)" by simp
  from ganancia_negativa_sin_cuota [OF n] t n show ?thesis
    by (simp add: base_500)
qed



text \<open>
  The roundings of binary64 show in the results: 1.5 * 0.19 is just above 0.285 and
  rounds to 0.29, and 1 added to 2^53 is lost.
\<close>

lemma ejemplos_de_redondeo:
  "calcular_irpf_ingresos suma_en_orden (Some [Fin (3 / 2)]) =
     \<lparr>total_ingresos_eur = Fin (3 / 2), irpf_ingresos_eur = rnd (29 / 100)\<rparr>"
  "total_ingresos_eur (calcular_irpf_ingresos suma_en_orden (Some [Fin (2 ^ 53), Fin 1])) =
     Fin (2 ^ 53)"
  "np_round (escala_spec (Fin (3 / 2))) 2 = rnd (29 / 100)"
  by (simp_all add: calcular_irpf_ingresos_def suma_en_orden_def escala_spec_def f64_eval)

end
